theory Spec2Isabelle
  imports Main
begin

section \<open>Strings as the TypeScript code uses them\<close>

text \<open>
  JavaScript strings are modelled as \<open>string\<close> (a list of characters; a length counts
  list elements).  Only the operations the agent uses are modelled: \<open>startsWith\<close>,
  \<open>includes\<close>, \<open>trim\<close>, \<open>toLowerCase\<close>, \<open>split('\n')\<close>, \<open>join\<close>, and the
  first-occurrence search that underlies the non-greedy tag patterns.  A character is one
  of the 256 values of \<open>char\<close>: the whitespace that \<open>trim\<close> strips is the white space and
  the line terminators of that range (tab, line feed, vertical tab, form feed, carriage
  return, space, no-break space), and case folding is the ASCII one.
\<close>

definition startsWith :: "string \<Rightarrow> string \<Rightarrow> bool" where
  "startsWith s p = (take (length p) s = p)"

text \<open>\<open>split_at p s\<close>: the text before and after the first occurrence of \<open>p\<close> in \<open>s\<close>.\<close>

fun split_at :: "string \<Rightarrow> string \<Rightarrow> (string \<times> string) option" where
  "split_at p [] = (if p = [] then Some ([], []) else None)"
| "split_at p (c # cs) =
     (if startsWith (c # cs) p then Some ([], drop (length p) (c # cs))
      else (case split_at p cs of
              None \<Rightarrow> None
            | Some (a, b) \<Rightarrow> Some (c # a, b)))"

definition str_includes :: "string \<Rightarrow> string \<Rightarrow> bool" where
  "str_includes s p = (split_at p s \<noteq> None)"

definition is_space :: "char \<Rightarrow> bool" where
  "is_space c = (c \<in> set [CHR 0x09, CHR 0x0A, CHR 0x0B, CHR 0x0C, CHR 0x0D, CHR '' '', CHR 0xA0])"

definition trim :: "string \<Rightarrow> string" where
  "trim s = rev (dropWhile is_space (rev (dropWhile is_space s)))"

definition lower_char :: "char \<Rightarrow> char" where
  "lower_char c =
     (case map_of (zip ''ABCDEFGHIJKLMNOPQRSTUVWXYZ'' ''abcdefghijklmnopqrstuvwxyz'') c of
        None \<Rightarrow> c
      | Some d \<Rightarrow> d)"

definition toLowerCase :: "string \<Rightarrow> string" where
  "toLowerCase s = map lower_char s"

fun join :: "string \<Rightarrow> string list \<Rightarrow> string" where
  "join sep [] = []"
| "join sep [x] = x"
| "join sep (x # y # ys) = x @ sep @ join sep (y # ys)"

definition digit_char :: "nat \<Rightarrow> char" where
  "digit_char d = (''0123456789'' ! d)"

text \<open>Decimal rendering of a number inside a template literal.\<close>

function show_nat :: "nat \<Rightarrow> string" where
  "show_nat n = (if n < 10 then [digit_char n] else show_nat (n div 10) @ [digit_char (n mod 10)])"
  by pat_completeness auto
termination
  by (relation "measure (\<lambda>n. n)") auto

declare show_nat.simps [simp del]

section \<open>Errors\<close>

text \<open>
  A thrown JavaScript error: its \<open>name\<close>, its optional numeric \<open>status\<close> and its
  \<open>message\<close> (the empty string when absent: the code only tests the message for
  truthiness before searching it).
\<close>

record js_error =
  err_name :: string
  err_status :: "nat option"
  err_message :: string

definition mk_error :: "string \<Rightarrow> js_error" where
  "mk_error msg = \<lparr>err_name = ''Error'', err_status = None, err_message = msg\<rparr>"

section \<open>generateContentStreamWithRetry\<close>

definition FALLBACK_MODEL :: string where
  "FALLBACK_MODEL = ''gemini-2.5-flash''"

definition isModelUnavailable :: "js_error \<Rightarrow> bool" where
  "isModelUnavailable e =
     (err_status e = Some 404 \<or> err_status e = Some 400 \<or>
      (err_message e \<noteq> [] \<and>
        (str_includes (err_message e) ''404'' \<or>
         str_includes (err_message e) ''not found'' \<or>
         str_includes (err_message e) ''Requested entity was not found'')))"

definition isQuotaError :: "js_error \<Rightarrow> bool" where
  "isQuotaError e =
     (err_status e = Some 429 \<or>
      (err_message e \<noteq> [] \<and> str_includes (err_message e) ''429'') \<or>
      (err_message e \<noteq> [] \<and> str_includes (err_message e) ''quota''))"

definition backoff_delay :: "nat \<Rightarrow> nat" where
  "backoff_delay attempt = 2 ^ attempt * 2000 + 1000"

definition unavailable_notice :: "string \<Rightarrow> string" where
  "unavailable_notice m = ''(Model '' @ m @ '' unavailable. Falling back to Gemini 2.5 Flash...)''"

definition rate_limit_notice :: "nat \<Rightarrow> string" where
  "rate_limit_notice delay = ''(Rate limit hit. Retrying in '' @ show_nat ((delay + 500) div 1000) @ ''s...)''"

text \<open>
  The effects of the retry loop, in the order they happen: a request sent to the backend
  with a model (\<open>Call\<close>), a message passed to \<open>onRetry\<close> (\<open>Notice\<close>), and a sleep of a
  number of milliseconds (\<open>Wait\<close>).
\<close>

datatype retry_event = Call string | Notice string | Wait nat

text \<open>
  The \<open>for\<close> loop of \<open>generateContentStreamWithRetry\<close>.  The backend is a parameter:
  \<open>gen attempt model\<close> is what \<open>ai.models.generateContentStream\<close> answers at that attempt
  when asked for that model, an error or a stream.  \<open>continue\<close> runs the loop's
  \<open>attempt++\<close>, as falling out of the \<open>catch\<close> block does.
\<close>

function retry_loop ::
  "(nat \<Rightarrow> string \<Rightarrow> js_error + 'g) \<Rightarrow> nat \<Rightarrow> nat \<Rightarrow> string \<Rightarrow> retry_event list \<times> (js_error + 'g)"
where
  "retry_loop gen retries attempt m =
     (if attempt \<le> retries then
        (case gen attempt m of
           Inr g \<Rightarrow> ([Call m], Inr g)
         | Inl e \<Rightarrow>
             if isModelUnavailable e then
               (if m = FALLBACK_MODEL then ([Call m, Notice (unavailable_notice m)], Inl e)
                else (let (evs, r) = retry_loop gen retries (Suc attempt) FALLBACK_MODEL
                      in (Call m # Notice (unavailable_notice m) # evs, r)))
             else if isQuotaError e \<and> attempt < retries then
               (let (evs, r) = retry_loop gen retries (Suc attempt) m
                in (Call m # Notice (rate_limit_notice (backoff_delay attempt))
                      # Wait (backoff_delay attempt) # evs, r))
             else ([Call m], Inl e))
      else ([], Inl (mk_error ''Max retries exceeded'')))"
  by pat_completeness auto
termination
  by (relation "measure (\<lambda>(gen, retries, attempt, m). Suc retries - attempt)") auto

declare retry_loop.simps [simp del]

definition generateContentStreamWithRetry ::
  "(nat \<Rightarrow> string \<Rightarrow> js_error + 'g) \<Rightarrow> string \<Rightarrow> nat \<Rightarrow> retry_event list \<times> (js_error + 'g)"
where
  "generateContentStreamWithRetry gen model_param retries =
     retry_loop gen retries 0 (if model_param = [] then FALLBACK_MODEL else model_param)"

text \<open>Scripted backends used to evaluate the retry loop on concrete inputs.\<close>

definition quota_error :: js_error where
  "quota_error = \<lparr>err_name = ''Error'', err_status = Some 429, err_message = ''quota''\<rparr>"

definition missing_error :: js_error where
  "missing_error = \<lparr>err_name = ''Error'', err_status = Some 404, err_message = ''nf''\<rparr>"

definition quota_then_missing :: "nat \<Rightarrow> string \<Rightarrow> js_error + unit" where
  "quota_then_missing a m = (if a < 3 then Inl quota_error else Inl missing_error)"

definition missing_then_ok :: "nat \<Rightarrow> string \<Rightarrow> js_error + unit" where
  "missing_then_ok a m = (if m = FALLBACK_MODEL then Inr () else Inl missing_error)"

definition always_missing :: "nat \<Rightarrow> string \<Rightarrow> js_error + unit" where
  "always_missing a m = Inl missing_error"

definition always_quota :: "nat \<Rightarrow> string \<Rightarrow> js_error + unit" where
  "always_quota a m = Inl quota_error"

text \<open>An error of both classes: the status of a rate limit, a message that says \<open>not found\<close>.\<close>

definition quota_missing_error :: js_error where
  "quota_missing_error =
     \<lparr>err_name = ''Error'', err_status = Some 429,
      err_message = ''quota exceeded: model not found''\<rparr>"

definition always_quota_missing :: "nat \<Rightarrow> string \<Rightarrow> js_error + unit" where
  "always_quota_missing a m = Inl quota_missing_error"

section \<open>generateOpenRouterStream\<close>

text \<open>
  What \<open>fetch\<close> resolves with: the status, the text of the body (read by the error path),
  whether a body stream exists, the decoded text of every chunk the reader delivers
  before the stream ends, and how it ends: \<open>None\<close> when \<open>read()\<close> reports \<open>done\<close>, an
  error when \<open>read()\<close> rejects.
\<close>

record http_response =
  resp_status :: nat
  resp_text :: string
  resp_has_body :: bool
  resp_reads :: "string list"
  resp_failure :: "js_error option"

text \<open>\<open>response.ok\<close> of the Fetch standard: the status is in the range 200 to 299.\<close>

definition response_ok :: "http_response \<Rightarrow> bool" where
  "response_ok r = (200 \<le> resp_status r \<and> resp_status r \<le> 299)"

text \<open>
  The JSON decoder is a parameter of the model.  \<open>decode dataStr\<close> is \<open>Malformed\<close> when
  \<open>JSON.parse\<close> or the property access throws, and \<open>Delta c\<close> otherwise, where \<open>c\<close> is
  \<open>choices[0].delta.content\<close>, the empty string when that value is absent or falsy.
\<close>

datatype json_delta = Malformed | Delta string

text \<open>\<open>s.split('\n')\<close>: never empty; the last element is the text after the last newline.\<close>

fun split_nl :: "string \<Rightarrow> string list" where
  "split_nl [] = [[]]"
| "split_nl (c # cs) =
     (if c = CHR 0x0A then [] # split_nl cs
      else (case split_nl cs of [] \<Rightarrow> [[c]] | l # ls \<Rightarrow> (c # l) # ls))"

text \<open>
  The \<open>for (const line of lines)\<close> loop.  The result is \<open>True\<close> when \<open>[DONE]\<close> made the
  function return.  \<open>onChunk\<close> acts on the caller's state \<open>'s\<close>.
\<close>

fun process_lines ::
  "(string \<Rightarrow> json_delta) \<Rightarrow> (string \<Rightarrow> 's \<Rightarrow> 's) \<Rightarrow> string list \<Rightarrow> 's \<Rightarrow> bool \<times> 's"
where
  "process_lines decode onChunk [] s = (False, s)"
| "process_lines decode onChunk (line # rest) s =
     (if startsWith (trim line) ''data: '' then
        (if drop 6 (trim line) = ''[DONE]'' then (True, s)
         else (case decode (drop 6 (trim line)) of
                 Malformed \<Rightarrow> process_lines decode onChunk rest s
               | Delta content \<Rightarrow>
                   process_lines decode onChunk rest
                     (if content \<noteq> [] then onChunk content s else s)))
      else process_lines decode onChunk rest s)"

text \<open>
  The \<open>while (true)\<close> loop over \<open>reader.read()\<close>.  The stream is finite: after the listed
  chunks the read reports \<open>done\<close> (the loop breaks) or rejects with \<open>failure\<close>.
\<close>

fun read_loop ::
  "(string \<Rightarrow> json_delta) \<Rightarrow> (string \<Rightarrow> 's \<Rightarrow> 's) \<Rightarrow> js_error option \<Rightarrow> string \<Rightarrow> string list \<Rightarrow> 's
     \<Rightarrow> js_error option \<times> 's"
where
  "read_loop decode onChunk failure buffer [] s = (failure, s)"
| "read_loop decode onChunk failure buffer (v # reads) s =
     (case process_lines decode onChunk (butlast (split_nl (buffer @ v))) s of
        (True, s') \<Rightarrow> (None, s')
      | (False, s') \<Rightarrow> read_loop decode onChunk failure (last (split_nl (buffer @ v))) reads s')"

text \<open>
  \<open>generateOpenRouterStream\<close>: the result is the error thrown (if any) and the caller's
  state after the calls of \<open>onChunk\<close> made until then.  \<open>fetched\<close> is what \<open>fetch\<close> settled
  with.
\<close>

definition openrouter_http_error :: "http_response \<Rightarrow> js_error" where
  "openrouter_http_error r =
     mk_error (''OpenRouter Error '' @ show_nat (resp_status r) @ '': '' @ resp_text r)"

definition generateOpenRouterStream ::
  "(string \<Rightarrow> json_delta) \<Rightarrow> js_error + http_response \<Rightarrow> (string \<Rightarrow> 's \<Rightarrow> 's) \<Rightarrow> 's
     \<Rightarrow> js_error option \<times> 's"
where
  "generateOpenRouterStream decode fetched onChunk s =
     (case fetched of
        Inl e \<Rightarrow> (Some e, s)
      | Inr r \<Rightarrow>
          if \<not> response_ok r then (Some (openrouter_http_error r), s)
          else if \<not> resp_has_body r then (Some (mk_error ''No response body from OpenRouter''), s)
          else read_loop decode onChunk (resp_failure r) [] (resp_reads r) s)"

text \<open>
  The reader as the specification words it: the complete lines of the whole decoded
  stream, handled in order, whatever the chunk boundaries were.
\<close>

definition sse_whole_stream ::
  "(string \<Rightarrow> json_delta) \<Rightarrow> (string \<Rightarrow> 's \<Rightarrow> 's) \<Rightarrow> js_error option \<Rightarrow> string list \<Rightarrow> 's
     \<Rightarrow> js_error option \<times> 's"
where
  "sse_whole_stream decode onChunk failure reads s =
     (case process_lines decode onChunk (butlast (split_nl (concat reads))) s of
        (True, s') \<Rightarrow> (None, s')
      | (False, s') \<Rightarrow> (failure, s'))"

text \<open>
  Sample data for the stream reader: the payload of a \<open>data:\<close> line that carries a text
  delta, and a decoder that understands that payload shape and the empty delta (the
  decoder of the model is a parameter; this one serves the concrete runs below).
\<close>

definition sse_json :: "string \<Rightarrow> string" where
  \<open>sse_json c = ''{"choices":[{"delta":{"content":"'' @ c @ ''"}}]}''\<close>

definition sample_decode :: "string \<Rightarrow> json_delta" where
  \<open>sample_decode d =
     (if startsWith d ''{"choices":[{"delta":{"content":"'' \<and> 38 \<le> length d
          \<and> drop (length d - 5) d = ''"}}]}''
      then Delta (take (length d - 38) (drop 33 d))
      else if d = ''{"choices":[{"delta":{}}]}'' then Delta []
      else Malformed)\<close>

definition data_line :: "string \<Rightarrow> string" where
  "data_line c = ''data: '' @ sse_json c"

definition collect :: "string \<Rightarrow> string list \<Rightarrow> string list" where
  "collect c out = out @ [c]"

definition server_error_response :: http_response where
  "server_error_response =
     \<lparr>resp_status = 500, resp_text = ''upstream down'', resp_has_body = True,
      resp_reads = [], resp_failure = None\<rparr>"

definition sample_sse_response :: http_response where
  "sample_sse_response =
     \<lparr>resp_status = 200, resp_text = [], resp_has_body = True,
      resp_reads =
        [data_line ''Hel'' @ [CHR 0x0A] @ ''da'',
         ''ta: {oops'' @ [CHR 0x0A] @ data_line ''lo'' @ [CHR 0x0A] @ '': ping'',
         [CHR 0x0A] @ ''data: [DONE]'' @ [CHR 0x0A] @ data_line ''late'' @ [CHR 0x0A]],
      resp_failure = None\<rparr>"

section \<open>externalSearchService\<close>

record WebSearchResult =
  ws_title :: string
  ws_url :: string
  ws_snippet :: "string option"
  ws_content :: "string option"

definition SEARCH_TIMEOUT_MS :: nat where
  "SEARCH_TIMEOUT_MS = 8000"

text \<open>
  The world the search service talks to.  \<open>mcp_search q limit\<close> is what
  \<open>runMcpWebSearch\<close> settles with; \<open>jina_content url\<close> is what
  \<open>fetchPageContentWithJina\<close> resolves with (the empty string when the fetch fails);
  \<open>jina_duration rs\<close> is the time in milliseconds the fetches for the pages \<open>rs\<close> need
  until all of them have settled.
\<close>

record search_env =
  mcp_search :: "string \<Rightarrow> nat \<Rightarrow> js_error + WebSearchResult list"
  jina_content :: "string \<Rightarrow> string"
  jina_duration :: "WebSearchResult list \<Rightarrow> nat"

definition keywordHit :: "string \<Rightarrow> bool" where
  "keywordHit lower =
     (str_includes lower ''search online'' \<or> str_includes lower ''search the web'' \<or>
      str_includes lower ''browse'' \<or> str_includes lower ''look this up'' \<or>
      str_includes lower ''check the internet'' \<or> str_includes lower ''check online'' \<or>
      str_includes lower ''latest'' \<or> str_includes lower ''today'' \<or>
      str_includes lower ''news'' \<or> str_includes lower ''price'' \<or>
      str_includes lower ''online result'' \<or> str_includes lower ''on the net'' \<or>
      str_includes lower ''reference'' \<or> str_includes lower ''inspiration'' \<or>
      str_includes lower ''find info'' \<or> str_includes lower ''current'')"

text \<open>
  \<open>shouldUseExternalSearch\<close>.  The message is \<open>None\<close> when the caller passes
  \<open>undefined\<close> (\<open>queries[0]\<close> of an empty array): \<open>toLowerCase\<close> then throws a
  \<open>TypeError\<close>, unless the model supports search and the function has already returned.
\<close>

definition shouldUseExternalSearch :: "string option \<Rightarrow> bool \<Rightarrow> bool \<Rightarrow> js_error + bool" where
  "shouldUseExternalSearch userMessage modelSupportsSearch hasSearchTag =
     (if modelSupportsSearch then Inr False
      else (case userMessage of
              None \<Rightarrow>
                Inl \<lparr>err_name = ''TypeError'', err_status = None,
                     err_message = ''Cannot read properties of undefined (reading 'toLowerCase')''\<rparr>
            | Some m \<Rightarrow> Inr (keywordHit (toLowerCase m) \<or> hasSearchTag)))"

definition has_content :: "WebSearchResult \<Rightarrow> bool" where
  "has_content r =
     (case ws_content r of None \<Rightarrow> False | Some c \<Rightarrow> c \<noteq> [] \<and> 50 < length (trim c))"

definition with_content :: "(string \<Rightarrow> string) \<Rightarrow> WebSearchResult \<Rightarrow> WebSearchResult" where
  "with_content jina r = r\<lparr>ws_content := Some (take 15000 (jina (ws_url r)))\<rparr>"

text \<open>
  \<open>fetchContentsForResults\<close>: the race between the fetches of the first \<open>limit\<close>
  results and the timer of \<open>SEARCH_TIMEOUT_MS\<close>.  When the timer settles first the
  \<open>catch\<close> returns \<open>top\<close>.
\<close>

definition fetchContentsForResults ::
  "'a search_env_scheme \<Rightarrow> WebSearchResult list \<Rightarrow> nat \<Rightarrow> WebSearchResult list"
where
  "fetchContentsForResults env results limit =
     (let top = take limit results
      in if SEARCH_TIMEOUT_MS < jina_duration env top then top
         else filter has_content (map (with_content (jina_content env)) top))"

section \<open>Control tags\<close>

text \<open>
  \<open>match_tag op cl s\<close>: the first match of the pattern \<open>op([\s\S]*?)cl\<close> in \<open>s\<close>, as the
  captured text and the text after the match.  The leftmost \<open>op\<close> that is followed by a
  \<open>cl\<close> is the leftmost \<open>op\<close>, and the lazy quantifier stops at the first \<open>cl\<close> after it.
\<close>

definition match_tag :: "string \<Rightarrow> string \<Rightarrow> string \<Rightarrow> (string \<times> string) option" where
  "match_tag op cl s = (case split_at op s of None \<Rightarrow> None | Some (a, r) \<Rightarrow> split_at cl r)"

lemma split_at_length:
  "split_at p s = Some (a, b) \<Longrightarrow> length a + length p + length b = length s"
proof (induction s arbitrary: a)
  case Nil
  then show ?case by (simp split: if_splits)
next
  case (Cons c cs)
  show ?case
  proof (cases "startsWith (c # cs) p")
    case True
    then have "take (length p) (c # cs) = p"
      by (simp add: startsWith_def)
    from arg_cong [OF this, of length] have "length p \<le> length (c # cs)"
      by simp
    with True Cons.prems show ?thesis by auto
  next
    case False
    with Cons.prems obtain a' where "split_at p cs = Some (a', b)" and "a = c # a'"
      by (auto split: option.splits)
    with Cons.IH show ?thesis by auto
  qed
qed

lemma match_tag_shorter:
  "match_tag ''<SEARCH>'' cl s = Some (c, rest) \<Longrightarrow> length rest < length s"
  by (auto simp: match_tag_def split: option.splits dest!: split_at_length)

text \<open>\<open>generatedThisLoop.matchAll(/<SEARCH>([\s\S]*?)<\/SEARCH>/g)\<close>: the captured texts.\<close>

function search_matches :: "string \<Rightarrow> string list" where
  "search_matches s =
     (case match_tag ''<SEARCH>'' ''</SEARCH>'' s of
        None \<Rightarrow> []
      | Some (c, rest) \<Rightarrow> c # search_matches rest)"
  by pat_completeness auto
termination
  by (relation "measure length") (auto dest: match_tag_shorter)

declare search_matches.simps [simp del]

definition present :: "(string \<times> string) option \<Rightarrow> bool" where
  "present m = (case m of None \<Rightarrow> False | Some (c, rest) \<Rightarrow> c \<noteq> [])"

definition capture :: "(string \<times> string) option \<Rightarrow> string" where
  "capture m = (case m of None \<Rightarrow> [] | Some (c, rest) \<Rightarrow> c)"

definition or_match ::
  "(string \<times> string) option \<Rightarrow> (string \<times> string) option \<Rightarrow> (string \<times> string) option"
where
  "or_match a b = (case a of None \<Rightarrow> b | Some x \<Rightarrow> Some x)"

definition deepMatch :: "string \<Rightarrow> (string \<times> string) option" where
  "deepMatch g = match_tag ''<DEEP>'' ''</DEEP>'' g"

definition imageMatch :: "string \<Rightarrow> (string \<times> string) option" where
  "imageMatch g = match_tag ''<IMAGE>'' ''</IMAGE>'' g"

definition projectMatch :: "string \<Rightarrow> (string \<times> string) option" where
  "projectMatch g = match_tag ''<PROJECT>'' ''</PROJECT>'' g"

definition canvasMatch :: "string \<Rightarrow> (string \<times> string) option" where
  "canvasMatch g =
     or_match (match_tag ''<CANVAS_TRIGGER>'' ''</CANVAS_TRIGGER>'' g)
       (or_match (match_tag ''<CANVAS_TRIGGER>'' ''</CANVASTRIGGER>'' g)
          (match_tag ''<CANVAS>'' ''</CANVAS>'' g))"

definition studyMatch :: "string \<Rightarrow> (string \<times> string) option" where
  "studyMatch g = match_tag ''<STUDY>'' ''</STUDY>'' g"

definition closing_tags :: "string list" where
  "closing_tags =
     [''</CANVAS_TRIGGER>'', ''</CANVASTRIGGER>'', ''</SEARCH>'', ''</DEEP>'', ''</IMAGE>'',
      ''</PROJECT>'', ''</CANVAS>'', ''</STUDY>'']"

definition has_closing_tag :: "string \<Rightarrow> bool" where
  "has_closing_tag g = list_ex (str_includes g) closing_tags"

section \<open>runAutonomousAgent\<close>

datatype RouterAction = SIMPLE | SEARCH | DEEP_SEARCH | IMAGE | PROJECT | CANVAS | STUDY

datatype ThinkingMode = Instant | Think | Deep | Normal

text \<open>
  The fields of \<open>AgentInput\<close> that decide the control flow.  The attachments and the
  history only shape the request sent to the backend; the credentials are the
  OpenRouter key of the profile (\<open>None\<close> when absent or empty) and the preferred deep
  model.
\<close>

record AgentInput =
  in_prompt :: string
  in_model :: string
  in_thinkingMode :: ThinkingMode
  in_openrouter_key :: "string option"
  in_preferred_deep_model :: "string option"

record citation =
  cite_uri :: string
  cite_title :: string

record message =
  msg_text :: string
  msg_grounding :: "citation list option"

text \<open>A chunk of the native stream: its text and the grounding chunks of its first candidate.\<close>

record native_chunk =
  chunk_text :: string
  chunk_grounding :: "citation list option"

record native_stream =
  ns_chunks :: "native_chunk list"
  ns_failure :: "js_error option"

text \<open>
  The world of one invocation.  Every awaited call settles, and every stream is finite.
  \<^item> \<open>route_result\<close>: what \<open>router.route\<close> settles with;
  \<^item> \<open>memory_failure\<close>: the error \<open>memory.getContext\<close> rejects with, if it does;
  \<^item> \<open>gemini n prompt attempt model\<close>: the answer of the native backend in iteration
    \<open>n\<close> to the request for \<open>prompt\<close>, at that attempt of the retry loop, for that model;
  \<^item> \<open>openrouter n prompt\<close>: what \<open>fetch\<close> settles with in iteration \<open>n\<close>;
  \<^item> \<open>decode_json\<close>: the JSON decoder;
  \<^item> \<open>aborted_at_loop n\<close>: the value of \<open>signal.aborted\<close> read at the head of the loop
    when \<open>loopCount = n\<close>; \<open>aborted_at_chunk n i\<close>: the value read when chunk \<open>i\<close> of the
    native stream of iteration \<open>n\<close> arrives; \<open>aborted_at_delta n i\<close>: the value read by the
    \<open>i\<close>-th call of the OpenRouter chunk callback in iteration \<open>n\<close>;
  \<^item> \<open>free_completion\<close>: what \<open>generateFreeCompletion\<close> settles with (instant mode);
  \<^item> \<open>friendly_error\<close>: \<open>getUserFriendlyError\<close>.
\<close>

record agent_env = search_env +
  route_result :: "js_error + RouterAction"
  memory_failure :: "js_error option"
  gemini :: "nat \<Rightarrow> string \<Rightarrow> nat \<Rightarrow> string \<Rightarrow> js_error + native_stream"
  openrouter :: "nat \<Rightarrow> string \<Rightarrow> js_error + http_response"
  decode_json :: "string \<Rightarrow> json_delta"
  aborted_at_loop :: "nat \<Rightarrow> bool"
  aborted_at_chunk :: "nat \<Rightarrow> nat \<Rightarrow> bool"
  aborted_at_delta :: "nat \<Rightarrow> nat \<Rightarrow> bool"
  free_completion :: "js_error + string"
  friendly_error :: "js_error \<Rightarrow> string"

text \<open>What the prologue fixes before the loop: the model, the backend, the key.\<close>

record agent_config =
  cfg_prompt :: string
  cfg_model :: string
  cfg_native :: bool
  cfg_key :: "string option"
  cfg_supports_search :: bool
  cfg_thinking_budget :: nat

text \<open>
  The variables the loop mutates.  \<open>streamed\<close> lists the calls of \<open>onStreamChunk\<close> in
  order; \<open>metadataPayload\<close> is the \<open>groundingMetadata\<close> field, \<open>None\<close> when undefined.
\<close>

record loop_state =
  currentAction :: RouterAction
  currentPrompt :: string
  finalResponseText :: string
  metadataPayload :: "citation list option"
  fallbackSearchContext :: string
  streamed :: "string list"

definition MAX_LOOPS :: nat where
  "MAX_LOOPS = 6"

definition isGoogleModel :: "string \<Rightarrow> bool" where
  "isGoogleModel m =
     (m = [] \<or> startsWith (toLowerCase m) ''gemini'' \<or> startsWith (toLowerCase m) ''veo''
        \<or> str_includes (toLowerCase m) ''google'')"

definition key_missing_notice :: string where
  "key_missing_notice = [CHR 0x0A] @ ''*(OpenRouter key missing, falling back to Gemini...)*'' @ [CHR 0x0A]"

definition thinking_switch_notice :: string where
  "thinking_switch_notice =
     [CHR 0x0A] @ ''*(Switched to Gemini 2.5 Flash for Thinking mode compatibility)*'' @ [CHR 0x0A]"

text \<open>Lines 198 to 227: the choice of the model and of the backend, with the notices streamed.\<close>

definition choose_model :: "AgentInput \<Rightarrow> agent_config \<times> string list" where
  "choose_model inp =
     (let model0 = (if in_model inp = [] \<or> trim (in_model inp) = [] then ''gemini-2.5-flash''
                    else in_model inp);
          native0 = isGoogleModel model0;
          key = (case in_openrouter_key inp of None \<Rightarrow> None
                 | Some k \<Rightarrow> if k = [] then None else Some k);
          no_key = (\<not> native0 \<and> key = None);
          model1 = (if no_key then ''gemini-2.5-flash'' else model0);
          native1 = (if no_key then True else native0);
          notes1 = (if no_key then [key_missing_notice] else []);
          deep_model = (case in_preferred_deep_model inp of
                          None \<Rightarrow> ''gemini-3-pro-preview''
                        | Some d \<Rightarrow> if d = [] then ''gemini-3-pro-preview'' else d);
          model2 = (case in_thinkingMode inp of
                      Deep \<Rightarrow> deep_model | Think \<Rightarrow> ''gemini-2.5-flash'' | _ \<Rightarrow> model1);
          budget = (case in_thinkingMode inp of
                      Deep \<Rightarrow> 8192 | Think \<Rightarrow> 2048 | _ \<Rightarrow> 0);
          native2 = (case in_thinkingMode inp of
                       Deep \<Rightarrow> isGoogleModel deep_model | Think \<Rightarrow> True | _ \<Rightarrow> native1);
          switch = (0 < budget \<and> native2 \<and> \<not> str_includes model2 ''gemini-2.5''
                      \<and> \<not> str_includes model2 ''gemini-3'');
          model3 = (if switch then ''gemini-2.5-flash'' else model2);
          notes2 = (if switch then [thinking_switch_notice] else [])
      in (\<lparr>cfg_prompt = in_prompt inp, cfg_model = model3, cfg_native = native2, cfg_key = key,
           cfg_supports_search = (native2 \<or> str_includes model3 ''perplexity''),
           cfg_thinking_budget = budget\<rparr>,
          notes1 @ notes2))"

definition cite :: "WebSearchResult \<Rightarrow> citation" where
  "cite p = \<lparr>cite_uri = ws_url p, cite_title = ws_title p\<rparr>"

definition add_metadata :: "citation list option \<Rightarrow> citation list \<Rightarrow> citation list option" where
  "add_metadata payload new = Some ((case payload of None \<Rightarrow> [] | Some old \<Rightarrow> old) @ new)"

text \<open>
  Lines 244 to 273: the search run before the loop when the prompt itself asks for one
  and the model has no search of its own.  Its failures are swallowed.
\<close>

definition initial_search :: "agent_env \<Rightarrow> agent_config \<Rightarrow> loop_state \<Rightarrow> loop_state" where
  "initial_search env cfg st =
     (if shouldUseExternalSearch (Some (cfg_prompt cfg)) (cfg_supports_search cfg) False = Inr True
      then
        (let searchTag = ''<SEARCH>'' @ cfg_prompt cfg @ ''</SEARCH>'';
             st1 = st\<lparr>finalResponseText := finalResponseText st @ searchTag,
                      streamed := streamed st @ [searchTag]\<rparr>;
             pages = (case mcp_search env (cfg_prompt cfg) 15 of
                        Inl e \<Rightarrow> []
                      | Inr searchResults \<Rightarrow>
                          if searchResults = [] then []
                          else fetchContentsForResults env searchResults 15)
         in st1\<lparr>metadataPayload := (if pages = [] then None else Some (map cite pages))\<rparr>)
      else st)"

text \<open>The native stream: the \<open>for await\<close> loop of lines 361 to 388.\<close>

definition take_chunk :: "native_chunk \<Rightarrow> loop_state \<Rightarrow> loop_state" where
  "take_chunk c st =
     st\<lparr>finalResponseText := finalResponseText st @ chunk_text c,
        streamed := streamed st @ [chunk_text c],
        metadataPayload :=
          (case chunk_grounding c of
             None \<Rightarrow> metadataPayload st
           | Some gs \<Rightarrow> add_metadata (metadataPayload st) gs)\<rparr>"

fun consume_native ::
  "(nat \<Rightarrow> bool) \<Rightarrow> nat \<Rightarrow> native_chunk list \<Rightarrow> js_error option \<Rightarrow> string \<Rightarrow> loop_state
     \<Rightarrow> js_error option \<times> string \<times> loop_state"
where
  "consume_native aborted i [] failure g st = (failure, g, st)"
| "consume_native aborted i (c # cs) failure g st =
     (if aborted i then (None, g, st)
      else if chunk_text c = [] then consume_native aborted (Suc i) cs failure g st
      else if has_closing_tag (g @ chunk_text c) then (None, g @ chunk_text c, take_chunk c st)
      else consume_native aborted (Suc i) cs failure (g @ chunk_text c) (take_chunk c st))"

text \<open>
  The callback given to \<open>generateOpenRouterStream\<close> (lines 429 to 434).  Its state is
  the number of calls so far, \<open>generatedThisLoop\<close> and the loop's variables.
\<close>

definition on_delta ::
  "(nat \<Rightarrow> bool) \<Rightarrow> string \<Rightarrow> nat \<times> string \<times> loop_state \<Rightarrow> nat \<times> string \<times> loop_state"
where
  "on_delta aborted chunk s =
     (case s of (i, g, st) \<Rightarrow>
        if aborted i then (Suc i, g, st)
        else (Suc i, g @ chunk,
              st\<lparr>finalResponseText := finalResponseText st @ chunk,
                 streamed := streamed st @ [chunk]\<rparr>))"

definition notices_of :: "retry_event list \<Rightarrow> string list" where
  "notices_of evs = concat (map (\<lambda>ev. case ev of Notice m \<Rightarrow> [m] | _ \<Rightarrow> []) evs)"

text \<open>
  The generation of one iteration: the error thrown (if any), \<open>generatedThisLoop\<close>, and
  the loop's variables as the stream left them.
\<close>

definition generate ::
  "agent_env \<Rightarrow> agent_config \<Rightarrow> nat \<Rightarrow> loop_state \<Rightarrow> js_error option \<times> string \<times> loop_state"
where
  "generate env cfg n st =
     (if cfg_native cfg then
        (case generateContentStreamWithRetry (gemini env n (currentPrompt st)) (cfg_model cfg) 3 of
           (evs, Inl e) \<Rightarrow> (Some e, [], st\<lparr>streamed := streamed st @ notices_of evs\<rparr>)
         | (evs, Inr stream) \<Rightarrow>
             consume_native (aborted_at_chunk env n) 0 (ns_chunks stream) (ns_failure stream) []
               (st\<lparr>streamed := streamed st @ notices_of evs\<rparr>))
      else
        (case cfg_key cfg of
           None \<Rightarrow> (Some (mk_error ''OpenRouter API Key not found.''), [], st)
         | Some key \<Rightarrow>
             (case generateOpenRouterStream (decode_json env) (openrouter env n (currentPrompt st))
                     (on_delta (aborted_at_delta env n)) (0, [], st) of
                (err, (i, g, st')) \<Rightarrow> (err, g, st'))))"

text \<open>The batch search of lines 439 to 482.\<close>

definition run_query :: "'a search_env_scheme \<Rightarrow> string \<Rightarrow> WebSearchResult list" where
  "run_query env q =
     (case mcp_search env q 20 of
        Inl e \<Rightarrow> []
      | Inr results \<Rightarrow> fetchContentsForResults env results 20)"

definition parallelResults ::
  "'a search_env_scheme \<Rightarrow> string list \<Rightarrow> (string \<times> WebSearchResult list) list"
where
  "parallelResults env queries = map (\<lambda>q. (q, run_query env q)) queries"

definition validResults ::
  "'a search_env_scheme \<Rightarrow> string list \<Rightarrow> (string \<times> WebSearchResult list) list"
where
  "validResults env queries = filter (\<lambda>r. snd r \<noteq> []) (parallelResults env queries)"

fun numbered :: "nat \<Rightarrow> 'a list \<Rightarrow> (nat \<times> 'a) list" where
  "numbered i [] = []"
| "numbered i (x # xs) = (i, x) # numbered (Suc i) xs"

definition render_page :: "nat \<times> WebSearchResult \<Rightarrow> string" where
  "render_page ip =
     ''['' @ show_nat (fst ip + 1) @ ''] '' @ ws_title (snd ip) @ '' ('' @ ws_url (snd ip) @ ''):''
       @ [CHR 0x0A] @ (case ws_content (snd ip) of None \<Rightarrow> ''undefined'' | Some c \<Rightarrow> c)"

definition query_context :: "string \<times> WebSearchResult list \<Rightarrow> string" where
  "query_context r =
     [CHR 0x0A, CHR 0x0A] @ ''=== WEB RESULTS FOR QUERY: '' @ [CHR 0x22] @ fst r @ [CHR 0x22]
       @ '' ==='' @ [CHR 0x0A]
       @ join [CHR 0x0A, CHR 0x0A] (map render_page (numbered 0 (snd r)))"

definition aggregatedContext :: "(string \<times> WebSearchResult list) list \<Rightarrow> string" where
  "aggregatedContext valid = concat (map query_context valid)"

definition allNewMeta :: "(string \<times> WebSearchResult list) list \<Rightarrow> citation list" where
  "allNewMeta valid = concat (map (\<lambda>r. map cite (snd r)) valid)"

definition synthesisPrompt :: "string \<Rightarrow> string list \<Rightarrow> string \<Rightarrow> string" where
  "synthesisPrompt prompt queries context =
     ''USER ORIGINALLY ASKED: '' @ prompt @ [CHR 0x0A, CHR 0x0A]
       @ ''I have performed the following searches based on my previous thought process:''
       @ [CHR 0x0A] @ join [CHR 0x0A] (map (\<lambda>q. ''- '' @ q) queries) @ [CHR 0x0A, CHR 0x0A]
       @ ''SEARCH CONTEXT:'' @ [CHR 0x0A] @ context @ [CHR 0x0A, CHR 0x0A]
       @ ''INSTRUCTIONS: Synthesize a comprehensive answer to the user's original query using this search data. Cite sources using [1], [2] format. Do NOT repeat the <SEARCH> tags.''"

definition extract_queries :: "string list \<Rightarrow> string list" where
  "extract_queries searchMatches = filter (\<lambda>q. q \<noteq> []) (map trim searchMatches)"

text \<open>
  The result of the batch: an error thrown, \<open>None\<close> when the batch takes no action and
  the tag checks follow, or the state with which the loop continues.
\<close>

definition batch_search ::
  "agent_env \<Rightarrow> agent_config \<Rightarrow> string list \<Rightarrow> loop_state \<Rightarrow> js_error + loop_state option"
where
  "batch_search env cfg searchMatches st =
     (if searchMatches = [] then Inr None
      else
        (let queries = extract_queries searchMatches
         in case shouldUseExternalSearch (case queries of [] \<Rightarrow> None | q # qs \<Rightarrow> Some q)
                   (cfg_supports_search cfg) True of
              Inl e \<Rightarrow> Inl e
            | Inr False \<Rightarrow> Inr None
            | Inr True \<Rightarrow>
                (let valid = validResults env queries
                 in if valid = [] then Inr None
                    else Inr (Some (st\<lparr>metadataPayload :=
                                          add_metadata (metadataPayload st) (allNewMeta valid),
                                        fallbackSearchContext := aggregatedContext valid,
                                        currentPrompt :=
                                          synthesisPrompt (cfg_prompt cfg) queries
                                            (aggregatedContext valid),
                                        currentAction := SIMPLE\<rparr>)))))"

text \<open>What one pass of the loop body ends with.\<close>

datatype step = Continue loop_state | Return loop_state | Throw js_error loop_state

definition switch_to :: "RouterAction \<Rightarrow> string \<Rightarrow> loop_state \<Rightarrow> loop_state" where
  "switch_to a p st = st\<lparr>currentAction := a, currentPrompt := p\<rparr>"

definition last_resort :: "loop_state \<Rightarrow> loop_state" where
  "last_resort st =
     (if trim (finalResponseText st) = [] \<and> fallbackSearchContext st \<noteq> []
      then st\<lparr>finalResponseText := fallbackSearchContext st,
              streamed := streamed st @ [fallbackSearchContext st]\<rparr>
      else st)"

text \<open>The tag checks of lines 484 to 512, on the segment \<open>g\<close> generated in this iteration.\<close>

definition route_tags :: "string \<Rightarrow> string list \<Rightarrow> loop_state \<Rightarrow> step" where
  "route_tags g searchMatches st =
     (if present (deepMatch g) then Continue (switch_to DEEP_SEARCH (capture (deepMatch g)) st)
      else if length searchMatches = 1 \<and> fallbackSearchContext st = []
        then Continue (switch_to SEARCH (hd searchMatches) st)
      else if present (imageMatch g) then Continue (switch_to IMAGE (capture (imageMatch g)) st)
      else if present (projectMatch g)
        then Continue (switch_to PROJECT (capture (projectMatch g)) st)
      else if present (canvasMatch g) then Continue (switch_to CANVAS (capture (canvasMatch g)) st)
      else if present (studyMatch g) then Continue (switch_to STUDY (capture (studyMatch g)) st)
      else Return (last_resort st))"

text \<open>
  The body of the \<open>while\<close> loop.  Every action runs the same branch of the \<open>switch\<close>
  (\<open>case 'SIMPLE': default:\<close>).
\<close>

definition iteration :: "agent_env \<Rightarrow> agent_config \<Rightarrow> nat \<Rightarrow> loop_state \<Rightarrow> step" where
  "iteration env cfg n st =
     (case generate env cfg n st of
        (Some e, g, st1) \<Rightarrow> Throw e st1
      | (None, g, st1) \<Rightarrow>
          (case batch_search env cfg (search_matches g) st1 of
             Inl e \<Rightarrow> Throw e st1
           | Inr (Some st2) \<Rightarrow> Continue st2
           | Inr None \<Rightarrow> route_tags g (search_matches g) st1))"

text \<open>
  The \<open>while (loopCount < MAX_LOOPS)\<close> loop.  The result is the final value of
  \<open>loopCount\<close>, the error thrown out of the loop (if any) and the loop's variables.
\<close>

function agent_loop ::
  "agent_env \<Rightarrow> agent_config \<Rightarrow> nat \<Rightarrow> loop_state \<Rightarrow> nat \<times> js_error option \<times> loop_state"
where
  "agent_loop env cfg loopCount st =
     (if loopCount < MAX_LOOPS then
        (if aborted_at_loop env loopCount then (loopCount, None, st)
         else (case iteration env cfg (Suc loopCount) st of
                 Continue st' \<Rightarrow> agent_loop env cfg (Suc loopCount) st'
               | Return st' \<Rightarrow> (Suc loopCount, None, st')
               | Throw e st' \<Rightarrow> (Suc loopCount, Some e, st')))
      else (loopCount, None, st))"
  by pat_completeness auto
termination
  by (relation "measure (\<lambda>(env, cfg, loopCount, st). MAX_LOOPS - loopCount)") auto

declare agent_loop.simps [simp del]

text \<open>
  The outcome of a call: the promise is fulfilled with a message (\<open>Inr\<close>) or rejected
  with an error (\<open>Inl\<close>); the number of iterations run; the chunks streamed (those
  that \<open>generateFreeCompletion\<close> streams in instant mode are not recorded).
\<close>

record agent_outcome =
  out_result :: "js_error + message"
  out_loops :: nat
  out_streamed :: "string list"

definition STOPPED_BY_USER :: string where
  "STOPPED_BY_USER = ''(Generation stopped by user)''"

definition cleaned_message :: "agent_env \<Rightarrow> js_error \<Rightarrow> string" where
  "cleaned_message env e =
     (if err_message e \<noteq> [] \<and> str_includes (err_message e) ''OpenRouter'' then err_message e
      else friendly_error env e)"

text \<open>The \<open>catch\<close> block of lines 519 to 526.\<close>

definition catch_block :: "agent_env \<Rightarrow> js_error \<Rightarrow> loop_state \<Rightarrow> message" where
  "catch_block env e st =
     (if err_name e = ''AbortError''
      then \<lparr>msg_text = (if finalResponseText st = [] then STOPPED_BY_USER
                         else finalResponseText st),
            msg_grounding = None\<rparr>
      else \<lparr>msg_text = ''An error occurred: '' @ cleaned_message env e, msg_grounding = None\<rparr>)"

definition final_message :: "loop_state \<Rightarrow> message" where
  "final_message st = \<lparr>msg_text = finalResponseText st, msg_grounding = metadataPayload st\<rparr>"

text \<open>The variables as they are when the \<open>try\<close> block is entered.\<close>

definition initial_state :: "agent_config \<Rightarrow> string list \<Rightarrow> loop_state" where
  "initial_state cfg notes =
     \<lparr>currentAction = SIMPLE, currentPrompt = cfg_prompt cfg, finalResponseText = [],
      metadataPayload = None, fallbackSearchContext = [], streamed = notes\<rparr>"

text \<open>The \<open>try\<close> block of lines 231 to 517: the loop count, the error thrown, the variables.\<close>

definition try_block ::
  "agent_env \<Rightarrow> agent_config \<Rightarrow> string list \<Rightarrow> nat \<times> js_error option \<times> loop_state"
where
  "try_block env cfg notes =
     (let st0 = initial_state cfg notes
      in case route_result env of
           Inl e \<Rightarrow> (0, Some e, st0)
         | Inr action \<Rightarrow>
             (let st1 = initial_search env cfg st0
              in case memory_failure env of
                   Some e \<Rightarrow> (0, Some e, st1)
                 | None \<Rightarrow> agent_loop env cfg 0 (st1\<lparr>currentAction := action\<rparr>)))"

definition settle :: "agent_env \<Rightarrow> nat \<times> js_error option \<times> loop_state \<Rightarrow> agent_outcome" where
  "settle env r =
     (case r of (n, err, st) \<Rightarrow>
        \<lparr>out_result = Inr (case err of None \<Rightarrow> final_message st | Some e \<Rightarrow> catch_block env e st),
         out_loops = n, out_streamed = streamed st\<rparr>)"

definition runAutonomousAgent :: "agent_env \<Rightarrow> AgentInput \<Rightarrow> agent_outcome" where
  "runAutonomousAgent env inp =
     (if in_thinkingMode inp = Instant then
        (case free_completion env of
           Inl e \<Rightarrow>
             \<lparr>out_result = Inl (mk_error ''Instant mode service unavailable.''),
              out_loops = 0, out_streamed = []\<rparr>
         | Inr completion \<Rightarrow>
             \<lparr>out_result = Inr \<lparr>msg_text = completion, msg_grounding = None\<rparr>,
              out_loops = 0, out_streamed = []\<rparr>)
      else (case choose_model inp of (cfg, notes) \<Rightarrow> settle env (try_block env cfg notes)))"

text \<open>
  A state is consistent when a search context has only been stored after text was
  accumulated.  The first state of a call is consistent and the loop keeps it so
  (\<open>first_state_consistent\<close>, \<open>iteration_keeps_consistent\<close>).
\<close>

definition consistent :: "loop_state \<Rightarrow> bool" where
  "consistent st = (fallbackSearchContext st = [] \<or> trim (finalResponseText st) \<noteq> [])"

section \<open>Sample worlds\<close>

text \<open>Concrete inputs and worlds, used to run the model.\<close>

definition quiet_env :: agent_env where
  "quiet_env =
     \<lparr>mcp_search = (\<lambda>q limit. Inr []), jina_content = (\<lambda>u. []), jina_duration = (\<lambda>rs. 0),
      route_result = Inr SIMPLE, memory_failure = None,
      gemini = (\<lambda>n p a m. Inr \<lparr>ns_chunks = [], ns_failure = None\<rparr>),
      openrouter = (\<lambda>n p. Inl (mk_error ''Failed to fetch'')),
      decode_json = sample_decode,
      aborted_at_loop = (\<lambda>n. False), aborted_at_chunk = (\<lambda>n i. False),
      aborted_at_delta = (\<lambda>n i. False),
      free_completion = Inr ''Hello!'', friendly_error = err_message\<rparr>"

definition native_input :: AgentInput where
  "native_input =
     \<lparr>in_prompt = ''draw a fox'', in_model = ''gemini-2.5-flash'', in_thinkingMode = Normal,
      in_openrouter_key = None, in_preferred_deep_model = None\<rparr>"

definition native_cfg :: agent_config where
  "native_cfg =
     \<lparr>cfg_prompt = ''draw a fox'', cfg_model = ''gemini-2.5-flash'', cfg_native = True,
      cfg_key = None, cfg_supports_search = True, cfg_thinking_budget = 0\<rparr>"

definition openrouter_input :: AgentInput where
  "openrouter_input =
     \<lparr>in_prompt = ''draw a fox'', in_model = ''openai/gpt-4o'', in_thinkingMode = Normal,
      in_openrouter_key = Some ''sk-or-1'', in_preferred_deep_model = None\<rparr>"

definition openrouter_cfg :: agent_config where
  "openrouter_cfg =
     \<lparr>cfg_prompt = ''draw a fox'', cfg_model = ''openai/gpt-4o'', cfg_native = False,
      cfg_key = Some ''sk-or-1'', cfg_supports_search = False, cfg_thinking_budget = 0\<rparr>"

definition instant_input :: AgentInput where
  "instant_input =
     \<lparr>in_prompt = ''hi'', in_model = [], in_thinkingMode = Instant,
      in_openrouter_key = None, in_preferred_deep_model = None\<rparr>"

definition text_chunk :: "string \<Rightarrow> native_chunk" where
  "text_chunk t = \<lparr>chunk_text = t, chunk_grounding = None\<rparr>"

definition plain_stream :: "string list \<Rightarrow> native_stream" where
  "plain_stream ts = \<lparr>ns_chunks = map text_chunk ts, ns_failure = None\<rparr>"

definition sse_response :: "string list \<Rightarrow> js_error option \<Rightarrow> http_response" where
  "sse_response reads failure =
     \<lparr>resp_status = 200, resp_text = [], resp_has_body = True, resp_reads = reads,
      resp_failure = failure\<rparr>"

definition abort_error :: js_error where
  "abort_error =
     \<lparr>err_name = ''AbortError'', err_status = None, err_message = ''The user aborted a request.''\<rparr>"

text \<open>The native model answers with an image tag, then with the final text.\<close>

definition fox_env :: agent_env where
  "fox_env =
     quiet_env\<lparr>gemini := (\<lambda>n p a m.
        if n = 1 then Inr (plain_stream [''<IMAGE>a red fox</IMAGE>'', '' (more)''])
        else Inr (plain_stream [''Here is your fox.'']))\<rparr>"

text \<open>The same answers from the OpenRouter backend, as server-sent events.\<close>

definition trailing_env :: agent_env where
  "trailing_env =
     quiet_env\<lparr>openrouter := (\<lambda>n p.
        if n = 1
        then Inr (sse_response
               [data_line ''<IMAGE>a red fox</IMAGE>'' @ [CHR 0x0A] @ data_line '' (more)'' @ [CHR 0x0A]]
               None)
        else Inr (sse_response [data_line ''Here is your fox.'' @ [CHR 0x0A]] None))\<rparr>"

text \<open>The signal is aborted when the third chunk of the first native stream arrives.\<close>

definition cancel_env :: agent_env where
  "cancel_env =
     quiet_env\<lparr>gemini := (\<lambda>n p a m. Inr (plain_stream [''Hello '', ''wor'', ''ld''])),
               aborted_at_chunk := (\<lambda>n i. 2 \<le> i)\<rparr>"

text \<open>The signal is already aborted when the first chunk of the native stream arrives.\<close>

definition early_cancel_env :: agent_env where
  "early_cancel_env =
     quiet_env\<lparr>gemini := (\<lambda>n p a m. Inr (plain_stream [''Hello ''])),
               aborted_at_chunk := (\<lambda>n i. True)\<rparr>"

text \<open>The read after the first event rejects with an \<open>AbortError\<close>; or the very first read does.\<close>

definition abort_env :: agent_env where
  "abort_env =
     quiet_env\<lparr>openrouter := (\<lambda>n p.
        Inr (sse_response [data_line ''Hel'' @ [CHR 0x0A] @ ''data: {'' ] (Some abort_error)))\<rparr>"

definition abort_at_once_env :: agent_env where
  "abort_at_once_env =
     quiet_env\<lparr>openrouter := (\<lambda>n p. Inr (sse_response [] (Some abort_error)))\<rparr>"

text \<open>The instant completion service is down.\<close>

definition instant_down_env :: agent_env where
  "instant_down_env = quiet_env\<lparr>free_completion := Inl (mk_error ''Failed to fetch'')\<rparr>"

definition instant_limited_env :: agent_env where
  "instant_limited_env = quiet_env\<lparr>free_completion := Inl quota_error\<rparr>"

text \<open>The native backend answers every request with a 500.\<close>

definition server_error :: js_error where
  "server_error =
     \<lparr>err_name = ''Error'', err_status = Some 500, err_message = ''Internal error''\<rparr>"

definition broken_env :: agent_env where
  "broken_env = quiet_env\<lparr>gemini := (\<lambda>n p a m. Inl server_error)\<rparr>"

text \<open>States reached in the sample worlds.\<close>

definition fox_state1 :: loop_state where
  "fox_state1 =
     \<lparr>currentAction = IMAGE, currentPrompt = ''a red fox'',
      finalResponseText = ''<IMAGE>a red fox</IMAGE>'', metadataPayload = None,
      fallbackSearchContext = [], streamed = [''<IMAGE>a red fox</IMAGE>'']\<rparr>"

definition fox_state2 :: loop_state where
  "fox_state2 =
     \<lparr>currentAction = IMAGE, currentPrompt = ''a red fox'',
      finalResponseText = ''<IMAGE>a red fox</IMAGE>Here is your fox.'', metadataPayload = None,
      fallbackSearchContext = [],
      streamed = [''<IMAGE>a red fox</IMAGE>'', ''Here is your fox.'']\<rparr>"

definition trailing_state1 :: loop_state where
  "trailing_state1 =
     \<lparr>currentAction = IMAGE, currentPrompt = ''a red fox'',
      finalResponseText = ''<IMAGE>a red fox</IMAGE> (more)'', metadataPayload = None,
      fallbackSearchContext = [], streamed = [''<IMAGE>a red fox</IMAGE>'', '' (more)'']\<rparr>"

definition trailing_state2 :: loop_state where
  "trailing_state2 =
     \<lparr>currentAction = IMAGE, currentPrompt = ''a red fox'',
      finalResponseText = ''<IMAGE>a red fox</IMAGE> (more)Here is your fox.'',
      metadataPayload = None, fallbackSearchContext = [],
      streamed = [''<IMAGE>a red fox</IMAGE>'', '' (more)'', ''Here is your fox.'']\<rparr>"

text \<open>
  Worlds with a search provider: the query \<open>alpha\<close> finds two pages, the query \<open>beta\<close>
  fails.  In \<open>search_world\<close> the pages are fetched in time; in \<open>slow_world\<close> the timer
  of the fetch fires first.
\<close>

definition page_a :: WebSearchResult where
  "page_a =
     \<lparr>ws_title = ''Alpha'', ws_url = ''https://a.example'', ws_snippet = Some ''about alpha'',
      ws_content = None\<rparr>"

definition page_b :: WebSearchResult where
  "page_b =
     \<lparr>ws_title = ''Beta'', ws_url = ''https://b.example'', ws_snippet = Some ''about beta'',
      ws_content = None\<rparr>"

definition page_c :: WebSearchResult where
  "page_c =
     \<lparr>ws_title = ''Gamma'', ws_url = ''https://c.example'', ws_snippet = None,
      ws_content = None\<rparr>"

definition long_text :: string where
  "long_text = replicate 60 (CHR ''x'')"

definition search_world :: agent_env where
  "search_world =
     quiet_env\<lparr>mcp_search := (\<lambda>q limit.
                  if q = ''alpha'' then Inr [page_a, page_b]
                  else if q = ''beta'' then Inl (mk_error ''search failed'')
                  else Inr []),
               jina_content := (\<lambda>u.
                  if u = ''https://a.example'' then long_text
                  else if u = ''https://c.example'' then replicate 15001 (CHR ''y'')
                  else ''too short''),
               jina_duration := (\<lambda>rs. 1200)\<rparr>"

definition slow_world :: agent_env where
  "slow_world = search_world\<lparr>jina_duration := (\<lambda>rs. 9000)\<rparr>"

definition fetched_a :: WebSearchResult where
  "fetched_a = page_a\<lparr>ws_content := Some long_text\<rparr>"

definition fetched_c :: WebSearchResult where
  "fetched_c = page_c\<lparr>ws_content := Some (replicate 15000 (CHR ''y''))\<rparr>"

text \<open>
  The OpenRouter model asks for two searches, then answers from the synthesis prompt.
\<close>

definition search_run_world :: agent_env where
  "search_run_world =
     search_world\<lparr>openrouter := (\<lambda>n p.
        if n = 1
        then Inr (sse_response
               [data_line ''<SEARCH>alpha</SEARCH><SEARCH> beta </SEARCH>'' @ [CHR 0x0A]] None)
        else Inr (sse_response [data_line ''Alpha is first [1].'' @ [CHR 0x0A]] None))\<rparr>"



definition search_state1 :: loop_state where
  "search_state1 =
     \<lparr>currentAction = SIMPLE,
      currentPrompt =
        synthesisPrompt ''draw a fox'' [''alpha'', ''beta'']
          (aggregatedContext [(''alpha'', [fetched_a])]),
      finalResponseText = ''<SEARCH>alpha</SEARCH><SEARCH> beta </SEARCH>'',
      metadataPayload = Some [cite fetched_a],
      fallbackSearchContext = aggregatedContext [(''alpha'', [fetched_a])],
      streamed = [''<SEARCH>alpha</SEARCH><SEARCH> beta </SEARCH>'']\<rparr>"

definition search_state2 :: loop_state where
  "search_state2 =
     search_state1
       \<lparr>finalResponseText :=
          ''<SEARCH>alpha</SEARCH><SEARCH> beta </SEARCH>Alpha is first [1].'',
        streamed := [''<SEARCH>alpha</SEARCH><SEARCH> beta </SEARCH>'', ''Alpha is first [1].'']\<rparr>"

section \<open>Properties of the retry loop\<close>

lemma retry_loop_first_call:
  "attempt \<le> retries \<Longrightarrow> \<exists>rest r. retry_loop gen retries attempt m = (Call m # rest, r)"
  by (subst retry_loop.simps) (auto split: sum.splits prod.splits)

lemma quota_error_class:
  "\<not> isModelUnavailable quota_error" "isQuotaError quota_error"
  by (simp_all add: quota_error_def isModelUnavailable_def isQuotaError_def
        str_includes_def startsWith_def)

lemma missing_error_class: "isModelUnavailable missing_error"
  by (simp add: missing_error_def isModelUnavailable_def)

lemma rate_limit_notice_values:
  "rate_limit_notice 3000 = ''(Rate limit hit. Retrying in 3s...)''"
  "rate_limit_notice 5000 = ''(Rate limit hit. Retrying in 5s...)''"
  "rate_limit_notice 9000 = ''(Rate limit hit. Retrying in 9s...)''"
  by (simp_all add: rate_limit_notice_def show_nat.simps digit_char_def)

lemma preview_not_fallback: "''gemini-3-pro-preview'' \<noteq> FALLBACK_MODEL"
  by (simp add: FALLBACK_MODEL_def)

lemma quota_missing_error_class:
  "isModelUnavailable quota_missing_error" "isQuotaError quota_missing_error"
  by (simp_all add: quota_missing_error_def isModelUnavailable_def isQuotaError_def
        str_includes_def startsWith_def)

lemma server_error_class:
  "\<not> isModelUnavailable server_error" "\<not> isQuotaError server_error"
  by (simp_all add: server_error_def isModelUnavailable_def isQuotaError_def str_includes_def
        startsWith_def)

text \<open>
  The branch of the model-unavailable class (status 404 or 400, or a message containing
  \<open>404\<close>, \<open>not found\<close> or \<open>Requested entity was not found\<close>), at any attempt and for
  any number of retries.  On \<open>gemini-2.5-flash\<close> the error is rethrown after the notice.
  On another model the notice is emitted and the model switched; the next effect is a
  request for \<open>gemini-2.5-flash\<close> when an attempt is left, and the end of the loop with
  \<open>Max retries exceeded\<close> when none is.
\<close>

lemma model_unavailable_branch:
  assumes "attempt \<le> retries" and "gen attempt m = Inl e" and "isModelUnavailable e"
  shows "(m = FALLBACK_MODEL \<longrightarrow>
            retry_loop gen retries attempt m = ([Call m, Notice (unavailable_notice m)], Inl e))
       \<and> (m \<noteq> FALLBACK_MODEL \<and> attempt < retries \<longrightarrow>
            (\<exists>rest r. retry_loop gen retries attempt m =
               (Call m # Notice (unavailable_notice m) # Call FALLBACK_MODEL # rest, r)))
       \<and> (m \<noteq> FALLBACK_MODEL \<and> attempt = retries \<longrightarrow>
            retry_loop gen retries attempt m =
              ([Call m, Notice (unavailable_notice m)], Inl (mk_error ''Max retries exceeded'')))"
proof (intro conjI impI)
  assume "m = FALLBACK_MODEL"
  with assms show "retry_loop gen retries attempt m = ([Call m, Notice (unavailable_notice m)], Inl e)"
    by (subst retry_loop.simps) simp
next
  assume h: "m \<noteq> FALLBACK_MODEL \<and> attempt < retries"
  then have "Suc attempt \<le> retries" by simp
  from retry_loop_first_call [OF this]
  obtain rest r where
    "retry_loop gen retries (Suc attempt) FALLBACK_MODEL = (Call FALLBACK_MODEL # rest, r)"
    by blast
  with assms h show "\<exists>rest r. retry_loop gen retries attempt m =
      (Call m # Notice (unavailable_notice m) # Call FALLBACK_MODEL # rest, r)"
    by (subst retry_loop.simps) simp
next
  assume h: "m \<noteq> FALLBACK_MODEL \<and> attempt = retries"
  have "retry_loop gen retries (Suc retries) FALLBACK_MODEL =
      ([], Inl (mk_error ''Max retries exceeded''))"
    by (subst retry_loop.simps) simp
  with assms h show "retry_loop gen retries attempt m =
      ([Call m, Notice (unavailable_notice m)], Inl (mk_error ''Max retries exceeded''))"
    by (subst retry_loop.simps) simp
qed

text \<open>
  C4 (the code departs from the claim at the last attempt).  An attempt that fails with an
  error of the model-unavailable class on a model other than \<open>gemini-2.5-flash\<close> emits the
  notice, switches the model and ends the round with \<open>continue\<close>.  The claim says that the
  request is then retried.
  \<^item> First run: the requested model answers three times with a rate-limit error and the
    fourth time (attempt 3, the last) with a 404.  The notice announces the fallback and
    the model is switched, but no request is sent to \<open>gemini-2.5-flash\<close>: the loop is over
    and the call fails with \<open>Max retries exceeded\<close>; the 404 is lost.
  \<^item> Second run: the same branch with attempts left.  The 404 comes at attempt 0 and the
    request is retried with \<open>gemini-2.5-flash\<close>, as the claim says.
  \<^item> Third run: the rate-limit branch of the same loop.  It tests \<open>attempt < retries\<close>
    and, at the last attempt, rethrows the error it caught.
\<close>

theorem fallback_at_last_attempt_not_retried:
  "generateContentStreamWithRetry quota_then_missing ''gemini-3-pro-preview'' 3 =
     ([Call ''gemini-3-pro-preview'', Notice ''(Rate limit hit. Retrying in 3s...)'', Wait 3000,
       Call ''gemini-3-pro-preview'', Notice ''(Rate limit hit. Retrying in 5s...)'', Wait 5000,
       Call ''gemini-3-pro-preview'', Notice ''(Rate limit hit. Retrying in 9s...)'', Wait 9000,
       Call ''gemini-3-pro-preview'',
       Notice ''(Model gemini-3-pro-preview unavailable. Falling back to Gemini 2.5 Flash...)''],
      Inl \<lparr>err_name = ''Error'', err_status = None, err_message = ''Max retries exceeded''\<rparr>)
   \<and> generateContentStreamWithRetry missing_then_ok ''gemini-3-pro-preview'' 3 =
       ([Call ''gemini-3-pro-preview'',
         Notice ''(Model gemini-3-pro-preview unavailable. Falling back to Gemini 2.5 Flash...)'',
         Call ''gemini-2.5-flash''],
        Inr ())
   \<and> generateContentStreamWithRetry always_quota ''gemini-3-pro-preview'' 3 =
       ([Call ''gemini-3-pro-preview'', Notice ''(Rate limit hit. Retrying in 3s...)'', Wait 3000,
         Call ''gemini-3-pro-preview'', Notice ''(Rate limit hit. Retrying in 5s...)'', Wait 5000,
         Call ''gemini-3-pro-preview'', Notice ''(Rate limit hit. Retrying in 9s...)'', Wait 9000,
         Call ''gemini-3-pro-preview''],
        Inl \<lparr>err_name = ''Error'', err_status = Some 429, err_message = ''quota''\<rparr>)"
proof -
  have a: "generateContentStreamWithRetry quota_then_missing ''gemini-3-pro-preview'' 3 =
     ([Call ''gemini-3-pro-preview'', Notice ''(Rate limit hit. Retrying in 3s...)'', Wait 3000,
       Call ''gemini-3-pro-preview'', Notice ''(Rate limit hit. Retrying in 5s...)'', Wait 5000,
       Call ''gemini-3-pro-preview'', Notice ''(Rate limit hit. Retrying in 9s...)'', Wait 9000,
       Call ''gemini-3-pro-preview'',
       Notice ''(Model gemini-3-pro-preview unavailable. Falling back to Gemini 2.5 Flash...)''],
      Inl \<lparr>err_name = ''Error'', err_status = None, err_message = ''Max retries exceeded''\<rparr>)"
    by (simp add: generateContentStreamWithRetry_def retry_loop.simps quota_then_missing_def
        quota_error_class missing_error_class rate_limit_notice_values backoff_delay_def
        FALLBACK_MODEL_def unavailable_notice_def mk_error_def)
  have b: "generateContentStreamWithRetry missing_then_ok ''gemini-3-pro-preview'' 3 =
       ([Call ''gemini-3-pro-preview'',
         Notice ''(Model gemini-3-pro-preview unavailable. Falling back to Gemini 2.5 Flash...)'',
         Call ''gemini-2.5-flash''],
        Inr ())"
    by (simp add: generateContentStreamWithRetry_def retry_loop.simps missing_then_ok_def
        missing_error_class FALLBACK_MODEL_def unavailable_notice_def)
  have c: "generateContentStreamWithRetry always_quota ''gemini-3-pro-preview'' 3 =
       ([Call ''gemini-3-pro-preview'', Notice ''(Rate limit hit. Retrying in 3s...)'', Wait 3000,
         Call ''gemini-3-pro-preview'', Notice ''(Rate limit hit. Retrying in 5s...)'', Wait 5000,
         Call ''gemini-3-pro-preview'', Notice ''(Rate limit hit. Retrying in 9s...)'', Wait 9000,
         Call ''gemini-3-pro-preview''],
        Inl \<lparr>err_name = ''Error'', err_status = Some 429, err_message = ''quota''\<rparr>)"
    by (simp add: generateContentStreamWithRetry_def retry_loop.simps always_quota_def
        quota_error_class rate_limit_notice_values backoff_delay_def)
       (simp add: quota_error_def)
  from a b c show ?thesis by simp
qed

text \<open>
  C5 (as amended).  The model-unavailable class is tested first.  An error that is of the
  rate-limit class (status 429, or a message containing \<open>429\<close> or \<open>quota\<close>) and not of
  the model-unavailable class, at attempt \<open>a < 3\<close>: the loop emits the countdown notice,
  waits exactly \<open>2^a * 2000 + 1000\<close> milliseconds and then sends the next request with the
  same model.  The delays for attempts 0, 1, 2 are 3000, 5000 and 9000 ms.  Such an error
  at attempt 3, and an error of neither class at any attempt, is propagated unchanged,
  with no notice and no wait.  An error of the model-unavailable class, whether or not it
  is also of the rate-limit class, goes through the fallback branch: after the request
  comes the model-unavailable notice, and then either nothing more or a request for
  \<open>gemini-2.5-flash\<close>, which is another model; there is no wait.
\<close>

theorem rate_limit_backoff:
  assumes "gen attempt m = Inl e"
  shows "(\<not> isModelUnavailable e \<and> isQuotaError e \<and> attempt < 3 \<longrightarrow>
            (\<exists>rest r. retry_loop gen 3 attempt m =
               (Call m # Notice (rate_limit_notice (2 ^ attempt * 2000 + 1000))
                  # Wait (2 ^ attempt * 2000 + 1000) # Call m # rest, r)))
       \<and> backoff_delay 0 = 3000 \<and> backoff_delay 1 = 5000 \<and> backoff_delay 2 = 9000
       \<and> (\<not> isModelUnavailable e \<and> attempt \<le> 3 \<and> (attempt = 3 \<or> \<not> isQuotaError e) \<longrightarrow>
            retry_loop gen 3 attempt m = ([Call m], Inl e))
       \<and> (isModelUnavailable e \<and> attempt \<le> 3 \<longrightarrow>
            (\<exists>rest r. retry_loop gen 3 attempt m =
                 (Call m # Notice (unavailable_notice m) # rest, r)
               \<and> (rest = [] \<or> (\<exists>rest'. m \<noteq> FALLBACK_MODEL \<and> rest = Call FALLBACK_MODEL # rest'))))"
proof (intro conjI impI)
  assume h: "\<not> isModelUnavailable e \<and> isQuotaError e \<and> attempt < 3"
  then have "Suc attempt \<le> 3" by simp
  from retry_loop_first_call [OF this]
  obtain rest r where "retry_loop gen 3 (Suc attempt) m = (Call m # rest, r)"
    by blast
  with assms h show "\<exists>rest r. retry_loop gen 3 attempt m =
      (Call m # Notice (rate_limit_notice (2 ^ attempt * 2000 + 1000))
         # Wait (2 ^ attempt * 2000 + 1000) # Call m # rest, r)"
    by (subst retry_loop.simps) (simp add: backoff_delay_def)
next
  assume "\<not> isModelUnavailable e \<and> attempt \<le> 3 \<and> (attempt = 3 \<or> \<not> isQuotaError e)"
  with assms show "retry_loop gen 3 attempt m = ([Call m], Inl e)"
    by (subst retry_loop.simps) auto
next
  assume h: "isModelUnavailable e \<and> attempt \<le> 3"
  then have u: "isModelUnavailable e" and le: "attempt \<le> 3" by simp_all
  note b = model_unavailable_branch [of attempt 3 gen m e, OF le assms u]
  show "\<exists>rest r. retry_loop gen 3 attempt m = (Call m # Notice (unavailable_notice m) # rest, r)
      \<and> (rest = [] \<or> (\<exists>rest'. m \<noteq> FALLBACK_MODEL \<and> rest = Call FALLBACK_MODEL # rest'))"
  proof (cases "m = FALLBACK_MODEL")
    case True
    with b show ?thesis by simp
  next
    case False
    show ?thesis
    proof (cases "attempt < 3")
      case True
      with False b obtain rest r where "retry_loop gen 3 attempt m =
          (Call m # Notice (unavailable_notice m) # Call FALLBACK_MODEL # rest, r)"
        by blast
      with False show ?thesis by simp
    next
      case False2: False
      with le have "attempt = 3" by simp
      with False b show ?thesis by simp
    qed
  qed
qed (simp_all add: backoff_delay_def)

theorem rate_limit_backoff_witness:
  "(\<exists>rest r. retry_loop always_quota 3 0 ''gemini-3-pro-preview'' =
       (Call ''gemini-3-pro-preview'' # Notice ''(Rate limit hit. Retrying in 3s...)''
          # Wait 3000 # Call ''gemini-3-pro-preview'' # rest, r))
   \<and> (\<exists>rest r. retry_loop always_quota 3 1 ''gemini-3-pro-preview'' =
       (Call ''gemini-3-pro-preview'' # Notice ''(Rate limit hit. Retrying in 5s...)''
          # Wait 5000 # Call ''gemini-3-pro-preview'' # rest, r))
   \<and> (\<exists>rest r. retry_loop always_quota 3 2 ''gemini-3-pro-preview'' =
       (Call ''gemini-3-pro-preview'' # Notice ''(Rate limit hit. Retrying in 9s...)''
          # Wait 9000 # Call ''gemini-3-pro-preview'' # rest, r))
   \<and> retry_loop always_quota 3 3 ''gemini-3-pro-preview'' =
       ([Call ''gemini-3-pro-preview''], Inl quota_error)
   \<and> retry_loop (\<lambda>a m. Inl server_error :: js_error + unit) 3 0 ''gemini-3-pro-preview'' =
       ([Call ''gemini-3-pro-preview''], Inl server_error)
   \<and> (\<exists>rest r. retry_loop always_quota_missing 3 0 ''gemini-3-pro-preview'' =
         (Call ''gemini-3-pro-preview'' # Notice (unavailable_notice ''gemini-3-pro-preview'')
            # rest, r)
       \<and> (rest = [] \<or> (\<exists>rest'. rest = Call FALLBACK_MODEL # rest')))"
proof -
  have a: "always_quota k ''gemini-3-pro-preview'' = Inl quota_error"
    "always_quota_missing 0 ''gemini-3-pro-preview'' = Inl quota_missing_error"
    "(\<lambda>a m. Inl server_error :: js_error + unit) 0 ''gemini-3-pro-preview'' = Inl server_error"
    for k
    by (simp_all add: always_quota_def always_quota_missing_def)
  have w0: "\<exists>rest r. retry_loop always_quota 3 0 ''gemini-3-pro-preview'' =
       (Call ''gemini-3-pro-preview'' # Notice ''(Rate limit hit. Retrying in 3s...)''
          # Wait 3000 # Call ''gemini-3-pro-preview'' # rest, r)"
    using rate_limit_backoff [of always_quota 0 "''gemini-3-pro-preview''", OF a(1)]
      quota_error_class rate_limit_notice_values
    by simp
  have w1: "\<exists>rest r. retry_loop always_quota 3 1 ''gemini-3-pro-preview'' =
       (Call ''gemini-3-pro-preview'' # Notice ''(Rate limit hit. Retrying in 5s...)''
          # Wait 5000 # Call ''gemini-3-pro-preview'' # rest, r)"
    using rate_limit_backoff [of always_quota 1 "''gemini-3-pro-preview''", OF a(1)]
      quota_error_class rate_limit_notice_values
    by simp
  have w2: "\<exists>rest r. retry_loop always_quota 3 2 ''gemini-3-pro-preview'' =
       (Call ''gemini-3-pro-preview'' # Notice ''(Rate limit hit. Retrying in 9s...)''
          # Wait 9000 # Call ''gemini-3-pro-preview'' # rest, r)"
    using rate_limit_backoff [of always_quota 2 "''gemini-3-pro-preview''", OF a(1)]
      quota_error_class rate_limit_notice_values
    by simp
  have w3: "retry_loop always_quota 3 3 ''gemini-3-pro-preview'' =
       ([Call ''gemini-3-pro-preview''], Inl quota_error)"
    using rate_limit_backoff [of always_quota 3 "''gemini-3-pro-preview''", OF a(1)]
      quota_error_class
    by simp
  have w4: "retry_loop (\<lambda>a m. Inl server_error :: js_error + unit) 3 0 ''gemini-3-pro-preview'' =
       ([Call ''gemini-3-pro-preview''], Inl server_error)"
    using rate_limit_backoff [of "\<lambda>a m. Inl server_error :: js_error + unit" 0
          "''gemini-3-pro-preview''", OF a(3)]
      server_error_class
    by simp
  have w5: "\<exists>rest r. retry_loop always_quota_missing 3 0 ''gemini-3-pro-preview'' =
         (Call ''gemini-3-pro-preview'' # Notice (unavailable_notice ''gemini-3-pro-preview'')
            # rest, r)
       \<and> (rest = [] \<or> (\<exists>rest'. rest = Call FALLBACK_MODEL # rest'))"
    using rate_limit_backoff [of always_quota_missing 0 "''gemini-3-pro-preview''", OF a(2)]
      quota_missing_error_class
    by auto
  from w0 w1 w2 w3 w4 w5 show ?thesis by blast
qed

text \<open>
  C5 as stated fails for an error of both classes.  Every request is answered with status
  429 and the message \<open>quota exceeded: model not found\<close>.  The error is of the rate-limit
  class and comes at attempt 0, but the model-unavailable test of lines 69 to 79 runs
  first: there is no wait, the next request goes to another model, and the call fails at
  attempt 1.
\<close>

theorem rate_limit_error_saying_not_found_counterexample:
  "isQuotaError quota_missing_error
   \<and> generateContentStreamWithRetry always_quota_missing ''gemini-3-pro-preview'' 3 =
       ([Call ''gemini-3-pro-preview'',
         Notice ''(Model gemini-3-pro-preview unavailable. Falling back to Gemini 2.5 Flash...)'',
         Call ''gemini-2.5-flash'',
         Notice ''(Model gemini-2.5-flash unavailable. Falling back to Gemini 2.5 Flash...)''],
        Inl \<lparr>err_name = ''Error'', err_status = Some 429,
             err_message = ''quota exceeded: model not found''\<rparr>)"
  by (simp add: generateContentStreamWithRetry_def retry_loop.simps always_quota_missing_def
        quota_missing_error_class FALLBACK_MODEL_def unavailable_notice_def)
     (simp add: quota_missing_error_def)

section \<open>Properties of the stream reader\<close>

lemma sample_decode_sse_json: "sample_decode (sse_json c) = Delta c"
  by (simp add: sample_decode_def sse_json_def startsWith_def)

lemma split_nl_nonempty: "split_nl s \<noteq> []"
  by (induction s) (auto split: list.splits)

lemma split_nl_no_newline: "CHR 0x0A \<notin> set s \<Longrightarrow> split_nl s = [s]"
  by (induction s) auto

lemma last_split_nl_no_newline: "CHR 0x0A \<notin> set (last (split_nl s))"
  by (induction s) (auto split: list.splits simp: split_nl_nonempty)

lemma split_nl_append:
  "split_nl (a @ b) = butlast (split_nl a) @ split_nl (last (split_nl a) @ b)"
proof (induction a)
  case Nil
  then show ?case by simp
next
  case (Cons c a)
  show ?case
  proof (cases "c = CHR 0x0A")
    case True
    then show ?thesis using Cons by (simp add: split_nl_nonempty)
  next
    case False
    obtain l ls where e: "split_nl a = l # ls"
      using split_nl_nonempty [of a] by (cases "split_nl a") auto
    show ?thesis
    proof (cases ls)
      case Nil
      with e False Cons show ?thesis 
        by (auto split: list.splits simp: split_nl_nonempty)
    next
      case (Cons l' ls')
      with e False Cons.IH show ?thesis
        by (auto split: list.splits simp: split_nl_nonempty)
    qed
  qed
qed

lemma process_lines_append:
  "process_lines decode onChunk (xs @ ys) s =
     (case process_lines decode onChunk xs s of
        (True, s') \<Rightarrow> (True, s')
      | (False, s') \<Rightarrow> process_lines decode onChunk ys s')"
  by (induction xs arbitrary: s) (auto split: json_delta.splits)

lemma read_loop_whole:
  "CHR 0x0A \<notin> set buffer \<Longrightarrow>
   read_loop decode onChunk failure buffer reads s =
     (case process_lines decode onChunk (butlast (split_nl (buffer @ concat reads))) s of
        (True, s') \<Rightarrow> (None, s')
      | (False, s') \<Rightarrow> (failure, s'))"
proof (induction reads arbitrary: buffer s)
  case Nil
  then show ?case by (simp add: split_nl_no_newline)
next
  case (Cons v reads)
  let ?ls = "split_nl (buffer @ v)"
  have nl: "CHR 0x0A \<notin> set (last ?ls)" by (rule last_split_nl_no_newline)
  have sp: "split_nl (buffer @ concat (v # reads)) = butlast ?ls @ split_nl (last ?ls @ concat reads)"
    using split_nl_append [of "buffer @ v" "concat reads"] by simp
  have bl: "butlast (split_nl (buffer @ concat (v # reads))) =
     butlast ?ls @ butlast (split_nl (last ?ls @ concat reads))"
    unfolding sp by (simp add: butlast_append split_nl_nonempty)
  show ?case
    unfolding bl process_lines_append
    using Cons.IH [OF nl]
    by (auto split: prod.splits bool.splits)
qed

lemma trim_id:
  "s \<noteq> [] \<Longrightarrow> \<not> is_space (hd s) \<Longrightarrow> \<not> is_space (last s) \<Longrightarrow> trim s = s"
proof -
  assume a: "s \<noteq> []" "\<not> is_space (hd s)" "\<not> is_space (last s)"
  then have "dropWhile is_space s = s" by (cases s) auto
  moreover from a have "dropWhile is_space (rev s) = rev s"
    by (cases "rev s") (auto simp: hd_rev)
  ultimately show ?thesis by (simp add: trim_def)
qed

lemma data_line_facts:
  "trim (data_line c) = data_line c"
  "startsWith (data_line c) ''data: ''"
  "drop 6 (data_line c) = sse_json c"
  "sse_json c \<noteq> ''[DONE]''"
  by (simp_all add: trim_id data_line_def sse_json_def is_space_def startsWith_def)

lemma other_line_facts:
  "trim ''data: {oops'' = ''data: {oops''"
  "trim '': ping'' = '': ping''"
  "trim ''data: [DONE]'' = ''data: [DONE]''"
  "sample_decode ''{oops'' = Malformed"
  by (simp_all add: trim_def is_space_def sample_decode_def startsWith_def)

lemma sample_lines:
  "split_nl (concat (resp_reads sample_sse_response)) =
     [data_line ''Hel'', ''data: {oops'', data_line ''lo'', '': ping'',
      ''data: [DONE]'', data_line ''late'', []]"
  by (simp add: sample_sse_response_def data_line_def sse_json_def)

text \<open>
  C8.  \<open>generateOpenRouterStream\<close> on a response whose status is not in 200..299 fails at
  once with the error \<open>OpenRouter Error <status>: <body>\<close>, before any call of the chunk
  sink.  On a 2xx response with a body, reading chunk by chunk with the trailing fragment
  carried into the next read is the same as handling, in order, the complete lines
  (those ended by a newline) of the whole decoded stream.  For each such line whose
  trimmed text starts with \<open>data: \<close>: the payload \<open>[DONE]\<close> ends the stream (no later
  line is handled); a payload that decodes has its \<open>choices[0].delta.content\<close> passed to
  the chunk sink when non-empty and is passed over when empty; a payload that does not
  decode is skipped and the stream goes on.  Other lines are passed over.
\<close>

theorem openrouter_stream_reader:
  "(\<not> response_ok r \<longrightarrow>
      generateOpenRouterStream decode (Inr r) onChunk s =
        (Some (mk_error (''OpenRouter Error '' @ show_nat (resp_status r) @ '': '' @ resp_text r)), s))
   \<and> (response_ok r \<and> resp_has_body r \<longrightarrow>
        generateOpenRouterStream decode (Inr r) onChunk s =
          sse_whole_stream decode onChunk (resp_failure r) (resp_reads r) s)
   \<and> (trim line = ''data: [DONE]'' \<longrightarrow>
        process_lines decode onChunk (line # rest) s = (True, s))
   \<and> (startsWith (trim line) ''data: '' \<and> drop 6 (trim line) \<noteq> ''[DONE]''
        \<and> decode (drop 6 (trim line)) = Delta c \<and> c \<noteq> [] \<longrightarrow>
        process_lines decode onChunk (line # rest) s =
          process_lines decode onChunk rest (onChunk c s))
   \<and> (startsWith (trim line) ''data: '' \<and> drop 6 (trim line) \<noteq> ''[DONE]''
        \<and> decode (drop 6 (trim line)) = Delta [] \<longrightarrow>
        process_lines decode onChunk (line # rest) s = process_lines decode onChunk rest s)
   \<and> (startsWith (trim line) ''data: '' \<and> drop 6 (trim line) \<noteq> ''[DONE]''
        \<and> decode (drop 6 (trim line)) = Malformed \<longrightarrow>
        process_lines decode onChunk (line # rest) s = process_lines decode onChunk rest s)
   \<and> (\<not> startsWith (trim line) ''data: '' \<longrightarrow>
        process_lines decode onChunk (line # rest) s = process_lines decode onChunk rest s)"
proof (intro conjI impI)
  assume "\<not> response_ok r"
  then show "generateOpenRouterStream decode (Inr r) onChunk s =
        (Some (mk_error (''OpenRouter Error '' @ show_nat (resp_status r) @ '': '' @ resp_text r)), s)"
    by (simp add: generateOpenRouterStream_def openrouter_http_error_def)
next
  assume "response_ok r \<and> resp_has_body r"
  then show "generateOpenRouterStream decode (Inr r) onChunk s =
          sse_whole_stream decode onChunk (resp_failure r) (resp_reads r) s"
    using read_loop_whole [of "[]" decode onChunk "resp_failure r" "resp_reads r" s]
    by (simp add: generateOpenRouterStream_def sse_whole_stream_def)
next
  assume "trim line = ''data: [DONE]''"
  then show "process_lines decode onChunk (line # rest) s = (True, s)"
    by (simp add: startsWith_def)
qed simp_all

theorem openrouter_stream_reader_witness:
  "generateOpenRouterStream sample_decode (Inr server_error_response) collect [] =
     (Some (mk_error ''OpenRouter Error 500: upstream down''), [])
   \<and> generateOpenRouterStream sample_decode (Inr sample_sse_response) collect [] =
       (None, [''Hel'', ''lo''])
   \<and> process_lines sample_decode collect [''data: [DONE]'', data_line ''late''] [] = (True, [])
   \<and> process_lines sample_decode collect [data_line ''Hel''] [] = (False, [''Hel''])
   \<and> process_lines sample_decode collect [''data: {oops''] [] = (False, [])
   \<and> process_lines sample_decode collect ['': ping''] [] = (False, [])"
proof -
  have st: "\<not> response_ok server_error_response" "resp_status server_error_response = 500"
    "resp_text server_error_response = ''upstream down''"
    by (simp_all add: response_ok_def server_error_response_def)
  have n: "show_nat 500 = ''500''"
    by (simp add: show_nat.simps digit_char_def)
  have ok: "response_ok sample_sse_response \<and> resp_has_body sample_sse_response"
    by (simp add: response_ok_def sample_sse_response_def)
  have whole: "sse_whole_stream sample_decode collect (resp_failure sample_sse_response)
      (resp_reads sample_sse_response) [] = (None, [''Hel'', ''lo''])"
    unfolding sse_whole_stream_def sample_lines
    by (simp add: data_line_facts other_line_facts sample_decode_sse_json collect_def)
       (simp add: startsWith_def)
  have a: "generateOpenRouterStream sample_decode (Inr server_error_response) collect [] =
     (Some (mk_error ''OpenRouter Error 500: upstream down''), [])"
    using openrouter_stream_reader [of server_error_response sample_decode collect "[]"] st n
    by simp
  have b: "generateOpenRouterStream sample_decode (Inr sample_sse_response) collect [] =
       (None, [''Hel'', ''lo''])"
    using openrouter_stream_reader [of sample_sse_response sample_decode collect "[]"] ok whole
    by simp
  have c: "process_lines sample_decode collect [''data: [DONE]'', data_line ''late''] [] = (True, [])"
    using openrouter_stream_reader [of _ sample_decode collect "[]" "''data: [DONE]''" "[data_line ''late'']"]
      other_line_facts
    by simp
  have d: "process_lines sample_decode collect [data_line ''Hel''] [] = (False, [''Hel''])"
    using openrouter_stream_reader [of _ sample_decode collect "[]" "data_line ''Hel''" "[]" "''Hel''"]
    by (simp add: data_line_facts sample_decode_sse_json collect_def)
  have e: "process_lines sample_decode collect [''data: {oops''] [] = (False, [])"
    using openrouter_stream_reader [of _ sample_decode collect "[]" "''data: {oops''" "[]"]
    by (simp add: other_line_facts startsWith_def)
  have f: "process_lines sample_decode collect ['': ping''] [] = (False, [])"
    using openrouter_stream_reader [of _ sample_decode collect "[]" "'': ping''" "[]"]
    by (simp add: other_line_facts startsWith_def)
  from a b c d e f show ?thesis by simp
qed

section \<open>Facts about strings and tags\<close>

lemma split_at_decompose: "split_at p s = Some (a, b) \<Longrightarrow> s = a @ p @ b"
proof (induction s arbitrary: a)
  case Nil
  then show ?case by (simp split: if_splits)
next
  case (Cons c cs)
  show ?case
  proof (cases "startsWith (c # cs) p")
    case True
    then have "take (length p) (c # cs) = p" by (simp add: startsWith_def)
    with True Cons.prems show ?thesis
      by (metis append_Nil append_take_drop_id option.inject prod.inject split_at.simps(2))
  next
    case False
    with Cons.prems obtain a' where "split_at p cs = Some (a', b)" and "a = c # a'"
      by (auto split: option.splits)
    with Cons.IH show ?thesis by auto
  qed
qed

lemma split_at_found: "split_at p (x @ p @ y) \<noteq> None"
proof (induction x)
  case Nil
  show ?case
  proof (cases "p @ y")
    case Nil
    then show ?thesis by simp
  next
    case (Cons c cs)
    then have "startsWith (c # cs) p" by (metis append_eq_conv_conj startsWith_def)
    with Cons show ?thesis by simp
  qed
next
  case (Cons c x)
  then show ?case by (auto split: option.splits)
qed

lemma str_includes_iff: "str_includes s p \<longleftrightarrow> (\<exists>a b. s = a @ p @ b)"
proof
  assume "str_includes s p"
  then obtain a b where "split_at p s = Some (a, b)"
    by (auto simp: str_includes_def)
  then show "\<exists>a b. s = a @ p @ b" by (blast dest: split_at_decompose)
next
  assume "\<exists>a b. s = a @ p @ b"
  then show "str_includes s p"
    using split_at_found by (auto simp: str_includes_def)
qed

lemma str_includes_append: "str_includes a p \<Longrightarrow> str_includes (a @ b) p"
  unfolding str_includes_iff by (metis append.assoc)

lemma match_tag_includes: "match_tag op cl s = Some (c, rest) \<Longrightarrow> str_includes s cl"
proof -
  assume "match_tag op cl s = Some (c, rest)"
  then obtain a r where "split_at op s = Some (a, r)" and "split_at cl r = Some (c, rest)"
    by (auto simp: match_tag_def split: option.splits)
  then have "s = a @ op @ r" and "r = c @ cl @ rest"
    by (auto dest: split_at_decompose)
  then have "s = (a @ op @ c) @ cl @ rest" by simp
  then show ?thesis unfolding str_includes_iff by blast
qed

lemma has_closing_tag_append: "has_closing_tag a \<Longrightarrow> has_closing_tag (a @ b)"
  by (auto simp: has_closing_tag_def list_ex_iff dest: str_includes_append)

lemma no_closing_tag_no_match:
  assumes "\<not> has_closing_tag g"
  shows "search_matches g = []" and "deepMatch g = None" and "imageMatch g = None"
    and "projectMatch g = None" and "canvasMatch g = None" and "studyMatch g = None"
proof -
  have n: "match_tag op cl g = None" if "cl \<in> set closing_tags" for op cl
  proof (cases "match_tag op cl g")
    case None
    then show ?thesis .
  next
    case (Some m)
    then have "str_includes g cl" by (cases m) (auto dest: match_tag_includes)
    with that assms show ?thesis by (auto simp: has_closing_tag_def list_ex_iff)
  qed
  show "search_matches g = []"
    by (subst search_matches.simps) (simp add: n closing_tags_def)
  show "deepMatch g = None" "imageMatch g = None" "projectMatch g = None" "studyMatch g = None"
    by (simp_all add: deepMatch_def imageMatch_def projectMatch_def studyMatch_def n closing_tags_def)
  show "canvasMatch g = None"
    by (simp add: canvasMatch_def or_match_def n closing_tags_def)
qed

lemma trim_empty_iff: "trim s = [] \<longleftrightarrow> (\<forall>c \<in> set s. is_space c)"
proof
  assume "trim s = []"
  then have "dropWhile is_space (rev (dropWhile is_space s)) = []"
    by (simp add: trim_def)
  then have "\<forall>x \<in> set (rev (dropWhile is_space s)). is_space x"
    by (simp only: dropWhile_eq_Nil_conv)
  then have d: "\<forall>x \<in> set (dropWhile is_space s). is_space x"
    by simp
  have "dropWhile is_space s = []"
  proof (cases "dropWhile is_space s")
    case Nil
    then show ?thesis .
  next
    case (Cons x xs)
    then have "\<not> is_space x" by (metis hd_dropWhile list.sel(1) list.distinct(1))
    with d Cons show ?thesis by simp
  qed
  then show "\<forall>c \<in> set s. is_space c"
    by (simp only: dropWhile_eq_Nil_conv)
next
  assume a: "\<forall>c \<in> set s. is_space c"
  then have "dropWhile is_space s = []" by (simp only: dropWhile_eq_Nil_conv)
  then show "trim s = []"
    unfolding trim_def by (simp only: rev.simps dropWhile.simps)
qed

lemma trim_append_nonempty: "trim a \<noteq> [] \<Longrightarrow> trim (a @ b) \<noteq> []"
  by (auto simp: trim_empty_iff)


lemma split_at_here: "split_at (c0 # p) ((c0 # p) @ r) = Some ([], r)"
  by (simp add: startsWith_def)








section \<open>Facts about the streams and the loop\<close>

lemma take_chunk_fields:
  "finalResponseText (take_chunk c st) = finalResponseText st @ chunk_text c"
  "fallbackSearchContext (take_chunk c st) = fallbackSearchContext st"
  by (simp_all add: take_chunk_def)

lemma consume_native_cancelled:
  assumes "\<forall>i < length cs1. \<not> aborted (k + i)"
    and "aborted (k + length cs1)"
    and "\<not> has_closing_tag (g @ concat (map chunk_text cs1))"
  shows "\<exists>st'. consume_native aborted k (cs1 @ c # cs2) failure g st =
            (None, g @ concat (map chunk_text cs1), st')
          \<and> finalResponseText st' = finalResponseText st @ concat (map chunk_text cs1)
          \<and> fallbackSearchContext st' = fallbackSearchContext st"
  using assms
proof (induction cs1 arbitrary: k g st)
  case Nil
  then show ?case by simp
next
  case (Cons x xs)
  have a0: "\<not> aborted k" using Cons.prems(1) by force
  have a1: "\<forall>i < length xs. \<not> aborted (Suc k + i)"
    using Cons.prems(1) by force
  have a2: "aborted (Suc k + length xs)" using Cons.prems(2) by simp
  have a3: "\<not> has_closing_tag ((g @ chunk_text x) @ concat (map chunk_text xs))"
    using Cons.prems(3) by simp
  have a4: "\<not> has_closing_tag (g @ chunk_text x)"
    using a3 has_closing_tag_append by blast
  show ?case
  proof (cases "chunk_text x = []")
    case True
    with a0 Cons.IH [OF a1 a2, of g st] Cons.prems(3) show ?thesis by simp
  next
    case False
    from Cons.IH [OF a1 a2 a3, of "take_chunk x st"] False a0 a4
    show ?thesis by (simp add: take_chunk_fields)
  qed
qed

lemma last_resort_consistent: "consistent st \<Longrightarrow> last_resort st = st"
  by (auto simp: consistent_def last_resort_def)

lemma agent_loop_step:
  assumes "n < MAX_LOOPS" and "\<not> aborted_at_loop env n"
  shows "iteration env cfg (Suc n) st = Return st' \<Longrightarrow> agent_loop env cfg n st = (Suc n, None, st')"
    and "iteration env cfg (Suc n) st = Throw e st' \<Longrightarrow> agent_loop env cfg n st = (Suc n, Some e, st')"
    and "iteration env cfg (Suc n) st = Continue st' \<Longrightarrow>
           agent_loop env cfg n st = agent_loop env cfg (Suc n) st'"
  using assms by (subst agent_loop.simps, simp)+

lemma process_lines_collect:
  "process_lines decode collect lines acc =
     (fst (process_lines decode collect lines []), acc @ snd (process_lines decode collect lines []))"
proof (induction lines arbitrary: acc)
  case Nil
  then show ?case by simp
next
  case (Cons line rest)
  show ?case
    using Cons.IH [of "acc @ [c]" for c] Cons.IH [of "[c]" for c] Cons.IH [of acc]
    by (auto simp: collect_def split: json_delta.splits)
qed

lemma process_lines_on_delta:
  assumes "\<forall>i. \<not> aborted i"
  shows "process_lines decode (on_delta aborted) lines (i, g, st) =
     (fst (process_lines decode collect lines []),
      (i + length (snd (process_lines decode collect lines [])),
       g @ concat (snd (process_lines decode collect lines [])),
       st\<lparr>finalResponseText :=
            finalResponseText st @ concat (snd (process_lines decode collect lines [])),
          streamed := streamed st @ snd (process_lines decode collect lines [])\<rparr>))"
proof (induction lines arbitrary: i g st)
  case Nil
  then show ?case by simp
next
  case (Cons line rest)
  have c: "process_lines decode collect rest [x] =
     (fst (process_lines decode collect rest []), x # snd (process_lines decode collect rest []))" for x
    using process_lines_collect [of decode rest "[x]"] by simp
  have cx: "collect x [] = [x]" for x
    by (simp add: collect_def)
  have od: "on_delta aborted x (i, g, st) =
      (Suc i, g @ x, st\<lparr>finalResponseText := finalResponseText st @ x,
                         streamed := streamed st @ [x]\<rparr>)" for x i g st
    using assms by (simp add: on_delta_def)
  show ?case
    using Cons.IH
    by (auto simp: od cx c split: json_delta.splits)
qed

lemma open_stream_whole:
  "response_ok r \<Longrightarrow> resp_has_body r \<Longrightarrow>
   generateOpenRouterStream decode (Inr r) onChunk s =
     sse_whole_stream decode onChunk (resp_failure r) (resp_reads r) s"
  using read_loop_whole [of "[]" decode onChunk "resp_failure r" "resp_reads r" s]
  by (simp add: generateOpenRouterStream_def sse_whole_stream_def)

lemma native_cancel_iteration:
  assumes nat: "cfg_native cfg"
    and gen: "generateContentStreamWithRetry (gemini env n (currentPrompt st)) (cfg_model cfg) 3
                = (evs, Inr stream)"
    and chunks: "ns_chunks stream = cs1 @ c # cs2"
    and before: "\<forall>i < length cs1. \<not> aborted_at_chunk env n i"
    and fired: "aborted_at_chunk env n (length cs1)"
    and notag: "\<not> has_closing_tag (concat (map chunk_text cs1))"
    and cons: "consistent st"
  shows "\<exists>st'. iteration env cfg n st = Return st'
           \<and> finalResponseText st' = finalResponseText st @ concat (map chunk_text cs1)"
proof -
  let ?st0 = "st\<lparr>streamed := streamed st @ notices_of evs\<rparr>"
  let ?g = "concat (map chunk_text cs1)"
  from consume_native_cancelled [of cs1 "aborted_at_chunk env n" 0 "[]" c cs2 "ns_failure stream" ?st0]
    before fired notag
  obtain st' where c: "consume_native (aborted_at_chunk env n) 0 (cs1 @ c # cs2) (ns_failure stream) [] ?st0
      = (None, ?g, st')"
    and f: "finalResponseText st' = finalResponseText st @ ?g"
    and fb: "fallbackSearchContext st' = fallbackSearchContext st"
    by auto
  have g: "generate env cfg n st = (None, ?g, st')"
    using nat gen chunks c by (simp add: generate_def)
  have cons': "consistent st'"
    using cons f fb by (auto simp: consistent_def dest: trim_append_nonempty)
  have "iteration env cfg n st = Return st'"
    using g no_closing_tag_no_match [OF notag] last_resort_consistent [OF cons']
    by (simp add: iteration_def batch_search_def route_tags_def present_def)
  with f show ?thesis by blast
qed

lemma openrouter_abort_iteration:
  assumes nonnat: "\<not> cfg_native cfg" and key: "cfg_key cfg = Some k"
    and resp: "openrouter env n (currentPrompt st) = Inr r"
    and ok: "response_ok r" "resp_has_body r"
    and fail: "resp_failure r = Some e"
    and whole: "sse_whole_stream (decode_json env) collect (Some e) (resp_reads r) [] = (Some e, ds)"
    and quiet: "\<forall>i. \<not> aborted_at_delta env n i"
  shows "\<exists>st'. iteration env cfg n st = Throw e st'
           \<and> finalResponseText st' = finalResponseText st @ concat ds"
proof -
  let ?L = "butlast (split_nl (concat (resp_reads r)))"
  have p: "process_lines (decode_json env) collect ?L [] = (False, ds)"
    using whole by (auto simp: sse_whole_stream_def split: prod.splits bool.splits)
  let ?st' = "st\<lparr>finalResponseText := finalResponseText st @ concat ds,
                 streamed := streamed st @ ds\<rparr>"
  have "process_lines (decode_json env) (on_delta (aborted_at_delta env n)) ?L (0, [], st) =
      (False, (length ds, concat ds, ?st'))"
    using process_lines_on_delta [OF quiet, of "decode_json env" ?L 0 "[]" st] p by simp
  then have "generateOpenRouterStream (decode_json env) (Inr r) (on_delta (aborted_at_delta env n)) (0, [], st)
      = (Some e, (length ds, concat ds, ?st'))"
    unfolding open_stream_whole [OF ok] sse_whole_stream_def fail by simp
  then have "generate env cfg n st = (Some e, concat ds, ?st')"
    using nonnat key resp by (simp add: generate_def)
  then have "iteration env cfg n st = Throw e ?st'"
    by (simp add: iteration_def)
  then show ?thesis by force
qed

text \<open>
  Both backends append every delta they take to the segment and to the final text alike,
  and leave the stored search context alone; a batch stores a context only after a
  segment with a SEARCH tag.  So every state the loop reaches is consistent, and the
  last-resort replacement of a blank final text is never taken.
\<close>

lemma consume_native_appends:
  "consume_native aborted i cs failure g st = (err, g', st') \<Longrightarrow>
   \<exists>d. g' = g @ d \<and> finalResponseText st' = finalResponseText st @ d
       \<and> fallbackSearchContext st' = fallbackSearchContext st"
proof (induction cs arbitrary: i g st)
  case Nil
  then show ?case by simp
next
  case (Cons c cs)
  show ?case
  proof (cases "aborted i \<or> chunk_text c = []")
    case True
    with Cons show ?thesis by (auto split: if_splits)
  next
    case False
    show ?thesis
    proof (cases "has_closing_tag (g @ chunk_text c)")
      case True
      with False Cons.prems show ?thesis by (auto simp: take_chunk_fields)
    next
      case False2: False
      with False Cons.prems
      have "consume_native aborted (Suc i) cs failure (g @ chunk_text c) (take_chunk c st) = (err, g', st')"
        by simp
      from Cons.IH [OF this] show ?thesis by (auto simp: take_chunk_fields)
    qed
  qed
qed

lemma on_delta_appends:
  "on_delta aborted chunk (i, g, st) = (i', g', st') \<Longrightarrow>
   \<exists>d. g' = g @ d \<and> finalResponseText st' = finalResponseText st @ d
       \<and> fallbackSearchContext st' = fallbackSearchContext st"
  by (auto simp: on_delta_def split: if_splits)

lemma process_lines_appends:
  "process_lines decode (on_delta aborted) lines (i, g, st) = (stop, (i', g', st')) \<Longrightarrow>
   \<exists>d. g' = g @ d \<and> finalResponseText st' = finalResponseText st @ d
       \<and> fallbackSearchContext st' = fallbackSearchContext st"
proof (induction lines arbitrary: i g st)
  case Nil
  then show ?case by simp
next
  case (Cons line rest)
  have step: "\<exists>d. g' = g @ d \<and> finalResponseText st' = finalResponseText st @ d
       \<and> fallbackSearchContext st' = fallbackSearchContext st"
    if "process_lines decode (on_delta aborted) rest (on_delta aborted c (i, g, st)) = (stop, (i', g', st'))"
    for c
  proof -
    obtain i1 g1 st1 where o: "on_delta aborted c (i, g, st) = (i1, g1, st1)"
      by (cases "on_delta aborted c (i, g, st)") auto
    from on_delta_appends [OF o] obtain d1 where
      "g1 = g @ d1" "finalResponseText st1 = finalResponseText st @ d1"
      "fallbackSearchContext st1 = fallbackSearchContext st"
      by blast
    moreover from Cons.IH [of i1 g1 st1] that o obtain d2 where
      "g' = g1 @ d2" "finalResponseText st' = finalResponseText st1 @ d2"
      "fallbackSearchContext st' = fallbackSearchContext st1"
      by auto
    ultimately show ?thesis by auto
  qed
  from Cons.prems show ?case
    using Cons.IH [of i g st] step
    by (auto split: if_splits json_delta.splits)
qed

lemma read_loop_appends:
  "read_loop decode (on_delta aborted) failure buffer reads (i, g, st) = (err, (i', g', st')) \<Longrightarrow>
   \<exists>d. g' = g @ d \<and> finalResponseText st' = finalResponseText st @ d
       \<and> fallbackSearchContext st' = fallbackSearchContext st"
proof (induction reads arbitrary: buffer i g st)
  case Nil
  then show ?case by simp
next
  case (Cons v reads)
  obtain stop i1 g1 st1 where
    p: "process_lines decode (on_delta aborted) (butlast (split_nl (buffer @ v))) (i, g, st)
          = (stop, (i1, g1, st1))"
    by (metis prod_cases3)
  from process_lines_appends [OF p] obtain d1 where
    d1: "g1 = g @ d1" "finalResponseText st1 = finalResponseText st @ d1"
    "fallbackSearchContext st1 = fallbackSearchContext st"
    by blast
  show ?case
  proof (cases stop)
    case True
    with Cons.prems p d1 show ?thesis by auto
  next
    case False
    with Cons.prems p
    have "read_loop decode (on_delta aborted) failure (last (split_nl (buffer @ v))) reads (i1, g1, st1)
        = (err, (i', g', st'))"
      by simp
    from Cons.IH [OF this] d1 show ?thesis by auto
  qed
qed

lemma generate_appends:
  assumes "generate env cfg n st = (err, g, st1)"
  shows "finalResponseText st1 = finalResponseText st @ g
       \<and> fallbackSearchContext st1 = fallbackSearchContext st"
proof (cases "cfg_native cfg")
  case True
  obtain evs r where r: "generateContentStreamWithRetry (gemini env n (currentPrompt st)) (cfg_model cfg) 3
      = (evs, r)"
    by (cases "generateContentStreamWithRetry (gemini env n (currentPrompt st)) (cfg_model cfg) 3 ::
          retry_event list \<times> (js_error + native_stream)") auto
  show ?thesis
  proof (cases r)
    case (Inl e)
    with True r assms show ?thesis by (auto simp: generate_def)
  next
    case (Inr stream)
    with True r assms
    have "consume_native (aborted_at_chunk env n) 0 (ns_chunks stream) (ns_failure stream) []
        (st\<lparr>streamed := streamed st @ notices_of evs\<rparr>) = (err, g, st1)"
      by (simp add: generate_def)
    from consume_native_appends [OF this] show ?thesis by auto
  qed
next
  case False
  show ?thesis
  proof (cases "cfg_key cfg")
    case None
    with False assms show ?thesis by (auto simp: generate_def)
  next
    case (Some key)
    obtain e2 i2 g2 st2 where
      s: "generateOpenRouterStream (decode_json env) (openrouter env n (currentPrompt st))
            (on_delta (aborted_at_delta env n)) (0, [], st) = (e2, (i2, g2, st2))"
      by (metis prod_cases4)
    with False Some assms have eq: "g2 = g" "st2 = st1" by (auto simp: generate_def)
    from s have "\<exists>d. g2 = [] @ d \<and> finalResponseText st2 = finalResponseText st @ d
       \<and> fallbackSearchContext st2 = fallbackSearchContext st"
      by (auto simp: generateOpenRouterStream_def split: sum.splits if_splits
            dest!: read_loop_appends)
    with eq show ?thesis by auto
  qed
qed

lemma search_matches_nonblank: "search_matches g \<noteq> [] \<Longrightarrow> trim g \<noteq> []"
proof -
  assume "search_matches g \<noteq> []"
  then obtain c rest where "match_tag ''<SEARCH>'' ''</SEARCH>'' g = Some (c, rest)"
    by (subst (asm) search_matches.simps) (auto split: option.splits)
  then obtain a r where "split_at ''<SEARCH>'' g = Some (a, r)"
    by (auto simp: match_tag_def split: option.splits)
  then have "g = a @ ''<SEARCH>'' @ r" by (rule split_at_decompose)
  then have "CHR ''<'' \<in> set g" by simp
  moreover have "\<not> is_space (CHR ''<'')" by (simp add: is_space_def)
  ultimately show ?thesis by (auto simp: trim_empty_iff)
qed

lemma iteration_keeps_consistent:
  assumes "consistent st"
  shows "iteration env cfg n st = Continue st' \<Longrightarrow> consistent st'"
    and "iteration env cfg n st = Return st' \<Longrightarrow> consistent st'"
    and "iteration env cfg n st = Throw e st' \<Longrightarrow> consistent st'"
proof -
  obtain err g st1 where g: "generate env cfg n st = (err, g, st1)"
    by (metis prod_cases3)
  from generate_appends [OF g] have
    f: "finalResponseText st1 = finalResponseText st @ g"
    and b: "fallbackSearchContext st1 = fallbackSearchContext st"
    by auto
  have c1: "consistent st1"
    using assms f b by (auto simp: consistent_def dest: trim_append_nonempty)
  have batch: "consistent st2" if "batch_search env cfg (search_matches g) st1 = Inr (Some st2)" for st2
  proof -
    from that have ne: "search_matches g \<noteq> []" and "finalResponseText st2 = finalResponseText st1"
      by (auto simp: batch_search_def Let_def split: if_splits sum.splits bool.splits)
    moreover from ne have "trim g \<noteq> []" by (rule search_matches_nonblank)
    then have "trim (finalResponseText st @ g) \<noteq> []"
      by (auto simp: trim_empty_iff)
    ultimately show ?thesis using f by (simp add: consistent_def)
  qed
  have route: "consistent s" if "route_tags g (search_matches g) st1 = Continue s
      \<or> route_tags g (search_matches g) st1 = Return s" for s
    using that c1 last_resort_consistent [OF c1]
    by (auto simp: route_tags_def switch_to_def consistent_def split: if_splits)
  show "iteration env cfg n st = Continue st' \<Longrightarrow> consistent st'"
    using g batch route
    by (auto simp: iteration_def split: option.splits sum.splits)
  show "iteration env cfg n st = Return st' \<Longrightarrow> consistent st'"
    using g batch route
    by (auto simp: iteration_def split: option.splits sum.splits)
  show "iteration env cfg n st = Throw e st' \<Longrightarrow> consistent st'"
    using g c1
    by (auto simp: iteration_def route_tags_def split: option.splits sum.splits if_splits)
qed

lemma first_state_consistent:
  "consistent ((initial_search env cfg (initial_state cfg notes))\<lparr>currentAction := a\<rparr>)"
  by (simp add: consistent_def initial_search_def initial_state_def Let_def)

lemma agent_loop_keeps_consistent:
  "consistent st \<Longrightarrow> agent_loop env cfg n st = (k, err, st') \<Longrightarrow> consistent st'"
proof (induction env cfg n st rule: agent_loop.induct)
  case (1 env cfg loopCount st)
  show ?case
  proof (cases "loopCount < MAX_LOOPS \<and> \<not> aborted_at_loop env loopCount")
    case True
    show ?thesis
    proof (cases "iteration env cfg (Suc loopCount) st")
      case (Continue s)
      with True "1.prems" have "agent_loop env cfg (Suc loopCount) s = (k, err, st')"
        by (subst (asm) agent_loop.simps) simp
      moreover have "consistent s"
        using iteration_keeps_consistent(1) [OF "1.prems"(1) Continue] .
      ultimately show ?thesis using "1.IH" [OF _ _ Continue] True by blast
    next
      case (Return s)
      with True "1.prems" have "st' = s"
        by (subst (asm) agent_loop.simps) simp
      with iteration_keeps_consistent(2) [OF "1.prems"(1) Return] show ?thesis by simp
    next
      case (Throw e s)
      with True "1.prems" have "st' = s"
        by (subst (asm) agent_loop.simps) simp
      with iteration_keeps_consistent(3) [OF "1.prems"(1) Throw] show ?thesis by simp
    qed
  next
    case False
    with "1.prems" have "st' = st"
      by (subst (asm) agent_loop.simps) (auto split: if_splits)
    with "1.prems" show ?thesis by simp
  qed
qed

section \<open>Runs in the sample worlds\<close>

lemma lower_flash: "toLowerCase ''gemini-2.5-flash'' = ''gemini-2.5-flash''"
  by (simp add: toLowerCase_def lower_char_def)

lemma lower_gpt: "toLowerCase ''openai/gpt-4o'' = ''openai/gpt-4o''"
  by (simp add: toLowerCase_def lower_char_def)

lemma model_classes:
  "isGoogleModel ''gemini-2.5-flash''"
  "\<not> isGoogleModel ''openai/gpt-4o''"
  "\<not> str_includes ''openai/gpt-4o'' ''perplexity''"
  "trim ''gemini-2.5-flash'' \<noteq> []"
  "trim ''openai/gpt-4o'' \<noteq> []"
  by (simp_all add: isGoogleModel_def lower_flash lower_gpt startsWith_def str_includes_def
        trim_def is_space_def)

lemma choose_native: "choose_model native_input = (native_cfg, [])"
  by (simp add: choose_model_def native_input_def native_cfg_def Let_def model_classes)

lemma choose_openrouter: "choose_model openrouter_input = (openrouter_cfg, [])"
  by (simp add: choose_model_def openrouter_input_def openrouter_cfg_def Let_def model_classes)

lemma retry_success:
  "gen 0 m = Inr s \<Longrightarrow> m \<noteq> [] \<Longrightarrow> generateContentStreamWithRetry gen m 3 = ([Call m], Inr s)"
  by (simp add: generateContentStreamWithRetry_def retry_loop.simps)

lemma no_keyword: "\<not> keywordHit (toLowerCase ''draw a fox'')"
  by (simp add: keywordHit_def toLowerCase_def lower_char_def str_includes_def startsWith_def)

lemma initial_search_native: "initial_search env native_cfg st = st"
  by (simp add: initial_search_def shouldUseExternalSearch_def native_cfg_def)

lemma initial_search_openrouter: "initial_search env openrouter_cfg st = st"
  by (simp add: initial_search_def shouldUseExternalSearch_def openrouter_cfg_def no_keyword)

text \<open>Tag facts about the sample segments.\<close>

lemma image_segment:
  "has_closing_tag ''<IMAGE>a red fox</IMAGE>''"
  "search_matches ''<IMAGE>a red fox</IMAGE>'' = []"
  "deepMatch ''<IMAGE>a red fox</IMAGE>'' = None"
  "imageMatch ''<IMAGE>a red fox</IMAGE>'' = Some (''a red fox'', [])"
  by (simp_all add: has_closing_tag_def closing_tags_def str_includes_def startsWith_def
        search_matches.simps match_tag_def deepMatch_def imageMatch_def)

lemma image_more_segment:
  "search_matches ''<IMAGE>a red fox</IMAGE> (more)'' = []"
  "deepMatch ''<IMAGE>a red fox</IMAGE> (more)'' = None"
  "imageMatch ''<IMAGE>a red fox</IMAGE> (more)'' = Some (''a red fox'', '' (more)'')"
  by (simp_all add: startsWith_def search_matches.simps match_tag_def deepMatch_def imageMatch_def)

lemma answer_segment: "\<not> has_closing_tag ''Here is your fox.''"
  by (simp add: has_closing_tag_def closing_tags_def str_includes_def startsWith_def)

lemma agent_loop_bound:
  "n \<le> MAX_LOOPS \<Longrightarrow> fst (agent_loop env cfg n st) \<le> MAX_LOOPS"
proof (induction env cfg n st rule: agent_loop.induct)
  case (1 env cfg loopCount st)
  show ?case
  proof (cases "loopCount < MAX_LOOPS \<and> \<not> aborted_at_loop env loopCount")
    case True
    then have s: "Suc loopCount \<le> MAX_LOOPS" by simp
    show ?thesis
    proof (cases "iteration env cfg (Suc loopCount) st")
      case (Continue st')
      with True "1.IH" [OF _ _ Continue s] show ?thesis
        by (subst agent_loop.simps) simp
    next
      case (Return st')
      with True s show ?thesis by (subst agent_loop.simps) simp
    next
      case (Throw e st')
      with True s show ?thesis by (subst agent_loop.simps) simp
    qed
  next
    case False
    with "1.prems" show ?thesis by (subst agent_loop.simps) auto
  qed
qed

lemma try_block_bound: "fst (try_block env cfg notes) \<le> MAX_LOOPS"
  using agent_loop_bound [of 0 env cfg]
  by (simp add: try_block_def Let_def split: sum.splits option.splits)

lemma settle_loops: "out_loops (settle env r) = fst r"
  by (cases r) (simp add: settle_def)

lemma run_normal:
  "in_thinkingMode inp \<noteq> Instant \<Longrightarrow> choose_model inp = (cfg, notes) \<Longrightarrow>
   runAutonomousAgent env inp = settle env (try_block env cfg notes)"
  by (simp add: runAutonomousAgent_def)

lemma try_block_loop:
  "route_result env = Inr a \<Longrightarrow> memory_failure env = None \<Longrightarrow>
   try_block env cfg notes =
     agent_loop env cfg 0 ((initial_search env cfg (initial_state cfg notes))\<lparr>currentAction := a\<rparr>)"
  by (simp add: try_block_def)

text \<open>The first two iterations in the world \<open>fox_env\<close>.\<close>

lemma fox_env_quiet:
  "route_result fox_env = Inr SIMPLE" "memory_failure fox_env = None"
  "\<not> aborted_at_loop fox_env n" "\<not> aborted_at_chunk fox_env n i"
  by (simp_all add: fox_env_def quiet_env_def)

lemma fox_generate1:
  "generate fox_env native_cfg (Suc 0) (initial_state native_cfg []) =
     (None, ''<IMAGE>a red fox</IMAGE>'',
      (initial_state native_cfg [])\<lparr>finalResponseText := ''<IMAGE>a red fox</IMAGE>'',
         streamed := [''<IMAGE>a red fox</IMAGE>'']\<rparr>)"
proof -
  have r: "generateContentStreamWithRetry (gemini fox_env (Suc 0) p) ''gemini-2.5-flash'' 3 =
      ([Call ''gemini-2.5-flash''], Inr (plain_stream [''<IMAGE>a red fox</IMAGE>'', '' (more)'']))" for p
    by (rule retry_success) (simp_all add: fox_env_def)
  show ?thesis
    by (simp add: generate_def native_cfg_def r plain_stream_def notices_of_def text_chunk_def
          image_segment take_chunk_def initial_state_def fox_env_quiet)
qed

lemma fox_iteration1:
  "iteration fox_env native_cfg (Suc 0) (initial_state native_cfg []) = Continue fox_state1"
  by (simp add: iteration_def fox_generate1 image_segment batch_search_def route_tags_def
        present_def capture_def switch_to_def)
     (simp add: initial_state_def fox_state1_def native_cfg_def)

lemma fox_iteration2:
  "iteration fox_env native_cfg (Suc (Suc 0)) fox_state1 = Return fox_state2"
proof -
  have r: "generateContentStreamWithRetry (gemini fox_env (Suc (Suc 0)) p) ''gemini-2.5-flash'' 3 =
      ([Call ''gemini-2.5-flash''], Inr (plain_stream [''Here is your fox.'']))" for p
    by (rule retry_success) (simp_all add: fox_env_def)
  have g: "generate fox_env native_cfg (Suc (Suc 0)) fox_state1 =
     (None, ''Here is your fox.'', fox_state2)"
    by (simp add: generate_def native_cfg_def r plain_stream_def notices_of_def text_chunk_def
          answer_segment take_chunk_def fox_state1_def fox_state2_def fox_env_quiet)
  have c: "consistent fox_state2"
    by (simp add: consistent_def fox_state2_def)
  show ?thesis
    using no_closing_tag_no_match [OF answer_segment] last_resort_consistent [OF c]
    by (simp add: iteration_def g batch_search_def route_tags_def present_def)
qed

lemma fox_run:
  "runAutonomousAgent fox_env native_input =
     \<lparr>out_result = Inr \<lparr>msg_text = ''<IMAGE>a red fox</IMAGE>Here is your fox.'',
                         msg_grounding = None\<rparr>,
      out_loops = 2,
      out_streamed = [''<IMAGE>a red fox</IMAGE>'', ''Here is your fox.'']\<rparr>"
proof -
  have s0: "(initial_search fox_env native_cfg (initial_state native_cfg []))\<lparr>currentAction := SIMPLE\<rparr>
      = initial_state native_cfg []"
    by (simp add: initial_search_native initial_state_def)
  have l2: "agent_loop fox_env native_cfg (Suc 0) fox_state1 = (Suc (Suc 0), None, fox_state2)"
    by (rule agent_loop_step(1)) (simp_all add: MAX_LOOPS_def fox_env_quiet fox_iteration2)
  have l1: "agent_loop fox_env native_cfg 0 (initial_state native_cfg []) =
      (Suc (Suc 0), None, fox_state2)"
    using agent_loop_step(3) [of 0 fox_env native_cfg "initial_state native_cfg []" fox_state1] l2
    by (simp add: MAX_LOOPS_def fox_env_quiet fox_iteration1)
  have "runAutonomousAgent fox_env native_input = settle fox_env (Suc (Suc 0), None, fox_state2)"
    using run_normal [OF _ choose_native, of fox_env]
      try_block_loop [OF fox_env_quiet(1) fox_env_quiet(2), of native_cfg "[]"]
    by (simp add: native_input_def s0 l1)
  then show ?thesis
    by (simp add: settle_def final_message_def fox_state2_def)
qed

section \<open>Properties of the agent loop\<close>

text \<open>
  C1 (as amended).  For every input and every world, the loop counter ends at 6 at most:
  the generation loop runs at most \<open>MAX_LOOPS = 6\<close> iterations.  The call always settles
  (every stream of the world is finite and every awaited call settles).  Outside instant
  mode the promise is fulfilled with a result message.  In instant mode the loop is not
  entered: the promise is fulfilled with the text of the instant completion, or, when
  that completion fails, rejected with the error \<open>Instant mode service unavailable.\<close>
\<close>

theorem bounded_loop_and_settlement:
  "out_loops (runAutonomousAgent env inp) \<le> 6
   \<and> (in_thinkingMode inp \<noteq> Instant \<longrightarrow>
        (\<exists>m. out_result (runAutonomousAgent env inp) = Inr m))
   \<and> (in_thinkingMode inp = Instant \<longrightarrow>
        out_result (runAutonomousAgent env inp) =
          (case free_completion env of
             Inl e \<Rightarrow> Inl (mk_error ''Instant mode service unavailable.'')
           | Inr t \<Rightarrow> Inr \<lparr>msg_text = t, msg_grounding = None\<rparr>))"
proof (intro conjI impI)
  show "out_loops (runAutonomousAgent env inp) \<le> 6"
    using try_block_bound [of env]
    by (auto simp: runAutonomousAgent_def settle_loops MAX_LOOPS_def split: sum.splits prod.splits)
next
  assume "in_thinkingMode inp \<noteq> Instant"
  then show "\<exists>m. out_result (runAutonomousAgent env inp) = Inr m"
    by (auto simp: runAutonomousAgent_def settle_def split: prod.splits)
next
  assume "in_thinkingMode inp = Instant"
  then show "out_result (runAutonomousAgent env inp) =
          (case free_completion env of
             Inl e \<Rightarrow> Inl (mk_error ''Instant mode service unavailable.'')
           | Inr t \<Rightarrow> Inr \<lparr>msg_text = t, msg_grounding = None\<rparr>)"
    by (simp add: runAutonomousAgent_def split: sum.splits)
qed

theorem bounded_loop_and_settlement_witness:
  "out_loops (runAutonomousAgent fox_env native_input) = 2
   \<and> (\<exists>m. out_result (runAutonomousAgent fox_env native_input) = Inr m)
   \<and> out_result (runAutonomousAgent quiet_env instant_input) =
       Inr \<lparr>msg_text = ''Hello!'', msg_grounding = None\<rparr>"
proof -
  have m: "in_thinkingMode native_input \<noteq> Instant" "in_thinkingMode instant_input = Instant"
    "free_completion quiet_env = Inr ''Hello!''"
    by (simp_all add: native_input_def instant_input_def quiet_env_def)
  show ?thesis
    using bounded_loop_and_settlement [of fox_env native_input]
      bounded_loop_and_settlement [of quiet_env instant_input] m
    by (simp add: fox_run)
qed

text \<open>
  C1 as stated fails in instant mode: when the instant completion service fails, the call
  does not resolve with a result, it rejects.
\<close>

theorem instant_mode_rejects_counterexample:
  "out_result (runAutonomousAgent instant_down_env instant_input) =
     Inl \<lparr>err_name = ''Error'', err_status = None,
          err_message = ''Instant mode service unavailable.''\<rparr>"
  by (simp add: runAutonomousAgent_def instant_input_def instant_down_env_def quiet_env_def
        mk_error_def)

text \<open>
  C9 (as amended).  Outside instant mode no error is propagated: the call is always
  fulfilled with a message.  When the \<open>try\<close> block throws an error \<open>e\<close> whose name is not
  \<open>AbortError\<close>, the message is \<open>An error occurred: \<close> followed by the cleaned-up message
  (the error's own message when it mentions \<open>OpenRouter\<close>, \<open>getUserFriendlyError(e)\<close>
  otherwise), without citations; an \<open>AbortError\<close> gives the accumulated text or the
  stopped-by-user placeholder instead.  In instant mode a failure of the instant
  completion is rethrown to the caller as \<open>Instant mode service unavailable.\<close>
\<close>

theorem errors_become_messages:
  "(in_thinkingMode inp \<noteq> Instant \<longrightarrow>
      (\<exists>m. out_result (runAutonomousAgent env inp) = Inr m))
   \<and> (in_thinkingMode inp \<noteq> Instant \<and> choose_model inp = (cfg, notes)
        \<and> try_block env cfg notes = (n, Some e, st) \<and> err_name e \<noteq> ''AbortError'' \<longrightarrow>
        out_result (runAutonomousAgent env inp) =
          Inr \<lparr>msg_text = ''An error occurred: '' @
                   (if err_message e \<noteq> [] \<and> str_includes (err_message e) ''OpenRouter''
                    then err_message e else friendly_error env e),
               msg_grounding = None\<rparr>)
   \<and> (in_thinkingMode inp \<noteq> Instant \<and> choose_model inp = (cfg, notes)
        \<and> try_block env cfg notes = (n, Some e, st) \<and> err_name e = ''AbortError'' \<longrightarrow>
        out_result (runAutonomousAgent env inp) =
          Inr \<lparr>msg_text = (if finalResponseText st = [] then STOPPED_BY_USER
                            else finalResponseText st),
               msg_grounding = None\<rparr>)
   \<and> (in_thinkingMode inp = Instant \<and> free_completion env = Inl e \<longrightarrow>
        out_result (runAutonomousAgent env inp) =
          Inl (mk_error ''Instant mode service unavailable.''))"
  by (auto simp: runAutonomousAgent_def settle_def catch_block_def cleaned_message_def
        split: prod.splits)

lemma broken_run:
  "try_block broken_env native_cfg [] = (Suc 0, Some server_error, initial_state native_cfg [])"
proof -
  have r: "generateContentStreamWithRetry (gemini broken_env (Suc 0) p) ''gemini-2.5-flash'' 3 =
      ([Call ''gemini-2.5-flash''], Inl server_error)" for p
    by (simp add: generateContentStreamWithRetry_def retry_loop.simps broken_env_def
          server_error_def isModelUnavailable_def isQuotaError_def str_includes_def startsWith_def)
  have g: "generate broken_env native_cfg (Suc 0) (initial_state native_cfg []) =
      (Some server_error, [], initial_state native_cfg [])"
    by (simp add: generate_def native_cfg_def r notices_of_def initial_state_def)
  have i: "iteration broken_env native_cfg (Suc 0) (initial_state native_cfg []) =
      Throw server_error (initial_state native_cfg [])"
    by (simp add: iteration_def g)
  have q: "route_result broken_env = Inr SIMPLE" "memory_failure broken_env = None"
    "\<not> aborted_at_loop broken_env 0"
    by (simp_all add: broken_env_def quiet_env_def)
  have s0: "(initial_search broken_env native_cfg (initial_state native_cfg []))\<lparr>currentAction := SIMPLE\<rparr>
      = initial_state native_cfg []"
    by (simp add: initial_search_native initial_state_def)
  show ?thesis
    using try_block_loop [OF q(1) q(2), of native_cfg "[]"]
      agent_loop_step(2) [OF _ q(3) i]
    by (simp add: s0 MAX_LOOPS_def)
qed

theorem errors_become_messages_witness:
  "out_result (runAutonomousAgent broken_env native_input) =
     Inr \<lparr>msg_text = ''An error occurred: Internal error'', msg_grounding = None\<rparr>
   \<and> out_result (runAutonomousAgent instant_limited_env instant_input) =
       Inl (mk_error ''Instant mode service unavailable.'')"
proof -
  have f: "friendly_error broken_env server_error = ''Internal error''"
    "\<not> str_includes (err_message server_error) ''OpenRouter''"
    "err_name server_error \<noteq> ''AbortError''"
    by (simp_all add: broken_env_def quiet_env_def server_error_def str_includes_def startsWith_def)
  have m: "in_thinkingMode native_input \<noteq> Instant" "in_thinkingMode instant_input = Instant"
    "free_completion instant_limited_env = Inl quota_error"
    by (simp_all add: native_input_def instant_input_def instant_limited_env_def)
  show ?thesis
    using errors_become_messages [of native_input broken_env native_cfg "[]" "Suc 0" server_error
        "initial_state native_cfg []"]
      errors_become_messages [of instant_input instant_limited_env _ _ _ quota_error]
      choose_native broken_run f m
    by simp
qed

text \<open>
  C9 as stated fails in instant mode: the error of the rate-limited completion service is
  caught and a new error is thrown to the caller; no result message is produced.
\<close>

theorem instant_mode_error_propagates_counterexample:
  "runAutonomousAgent instant_limited_env instant_input =
     \<lparr>out_result = Inl \<lparr>err_name = ''Error'', err_status = None,
                        err_message = ''Instant mode service unavailable.''\<rparr>,
      out_loops = 0, out_streamed = []\<rparr>"
  by (simp add: runAutonomousAgent_def instant_input_def instant_limited_env_def quiet_env_def
        mk_error_def)

lemma native_stream_stops_at_closing_tag:
  "\<not> aborted i \<Longrightarrow> chunk_text c \<noteq> [] \<Longrightarrow> has_closing_tag (g @ chunk_text c) \<Longrightarrow>
   consume_native aborted i (c # cs) failure g st = (None, g @ chunk_text c, take_chunk c st)"
  by simp

lemma trailing_env_quiet:
  "route_result trailing_env = Inr SIMPLE" "memory_failure trailing_env = None"
  "\<not> aborted_at_loop trailing_env n" "\<forall>i. \<not> aborted_at_delta trailing_env n i"
  "decode_json trailing_env = sample_decode"
  by (simp_all add: trailing_env_def quiet_env_def)

lemma trailing_lines:
  "butlast (split_nl (concat
      [data_line ''<IMAGE>a red fox</IMAGE>'' @ [CHR 0x0A] @ data_line '' (more)'' @ [CHR 0x0A]])) =
     [data_line ''<IMAGE>a red fox</IMAGE>'', data_line '' (more)'']"
  "butlast (split_nl (concat [data_line ''Here is your fox.'' @ [CHR 0x0A]])) =
     [data_line ''Here is your fox.'']"
  by (simp_all add: data_line_def sse_json_def)

lemma sample_deltas:
  "process_lines sample_decode collect [data_line a, data_line b] [] =
     (False, (if a = [] then [] else [a]) @ (if b = [] then [] else [b]))"
  "process_lines sample_decode collect [data_line a] [] = (False, if a = [] then [] else [a])"
  by (simp_all add: data_line_facts sample_decode_sse_json collect_def)

lemma sse_response_ok:
  "response_ok (sse_response reads failure)" "resp_has_body (sse_response reads failure)"
  "resp_reads (sse_response reads failure) = reads"
  "resp_failure (sse_response reads failure) = failure"
  by (simp_all add: sse_response_def response_ok_def)

lemma openrouter_generate:
  assumes "\<not> cfg_native cfg" and "cfg_key cfg = Some k"
    and "openrouter env n (currentPrompt st) = Inr (sse_response reads failure)"
    and "\<forall>i. \<not> aborted_at_delta env n i"
    and "process_lines (decode_json env) collect (butlast (split_nl (concat reads))) [] = (stop, ds)"
  shows "generate env cfg n st =
     (if stop then None else failure, concat ds,
      st\<lparr>finalResponseText := finalResponseText st @ concat ds, streamed := streamed st @ ds\<rparr>)"
proof -
  have "generateOpenRouterStream (decode_json env) (Inr (sse_response reads failure))
      (on_delta (aborted_at_delta env n)) (0, [], st) =
     (if stop then None else failure, (length ds, concat ds,
      st\<lparr>finalResponseText := finalResponseText st @ concat ds, streamed := streamed st @ ds\<rparr>))"
    unfolding open_stream_whole [OF sse_response_ok(1) sse_response_ok(2)] sse_whole_stream_def
      sse_response_ok process_lines_on_delta [OF assms(4)] assms(5)
    by simp
  with assms(1-3) show ?thesis by (simp add: generate_def)
qed

lemma trailing_generate1:
  "generate trailing_env openrouter_cfg (Suc 0) (initial_state openrouter_cfg []) =
     (None, ''<IMAGE>a red fox</IMAGE> (more)'',
      (initial_state openrouter_cfg [])\<lparr>finalResponseText := ''<IMAGE>a red fox</IMAGE> (more)'',
         streamed := [''<IMAGE>a red fox</IMAGE>'', '' (more)'']\<rparr>)"
proof -
  have o: "openrouter trailing_env (Suc 0) p = Inr (sse_response
               [data_line ''<IMAGE>a red fox</IMAGE>'' @ [CHR 0x0A] @ data_line '' (more)'' @ [CHR 0x0A]]
               None)" for p
    by (simp add: trailing_env_def)
  have c: "\<not> cfg_native openrouter_cfg" "cfg_key openrouter_cfg = Some ''sk-or-1''"
    by (simp_all add: openrouter_cfg_def)
  have pl: "process_lines (decode_json trailing_env) collect (butlast (split_nl (concat
      [data_line ''<IMAGE>a red fox</IMAGE>'' @ [CHR 0x0A] @ data_line '' (more)'' @ [CHR 0x0A]]))) []
      = (False, [''<IMAGE>a red fox</IMAGE>'', '' (more)''])"
    unfolding trailing_lines trailing_env_quiet sample_deltas by simp
  show ?thesis
    using openrouter_generate [OF c o trailing_env_quiet(4) pl,
        where st = "initial_state openrouter_cfg []"]
    by (simp add: initial_state_def)
qed

lemma trailing_iteration1:
  "iteration trailing_env openrouter_cfg (Suc 0) (initial_state openrouter_cfg []) =
     Continue trailing_state1"
  by (simp add: iteration_def trailing_generate1 image_more_segment batch_search_def
        route_tags_def present_def capture_def switch_to_def)
     (simp add: initial_state_def trailing_state1_def openrouter_cfg_def)

lemma trailing_iteration2:
  "iteration trailing_env openrouter_cfg (Suc (Suc 0)) trailing_state1 = Return trailing_state2"
proof -
  have o: "openrouter trailing_env (Suc (Suc 0)) p =
      Inr (sse_response [data_line ''Here is your fox.'' @ [CHR 0x0A]] None)" for p
    by (simp add: trailing_env_def)
  have c: "\<not> cfg_native openrouter_cfg" "cfg_key openrouter_cfg = Some ''sk-or-1''"
    by (simp_all add: openrouter_cfg_def)
  have pl: "process_lines (decode_json trailing_env) collect (butlast (split_nl (concat
      [data_line ''Here is your fox.'' @ [CHR 0x0A]]))) [] = (False, [''Here is your fox.''])"
    unfolding trailing_lines trailing_env_quiet sample_deltas by simp
  have g: "generate trailing_env openrouter_cfg (Suc (Suc 0)) trailing_state1 =
      (None, ''Here is your fox.'', trailing_state2)"
    using openrouter_generate [OF c o trailing_env_quiet(4) pl, where st = trailing_state1]
    by (simp add: trailing_state1_def trailing_state2_def)
  have cs: "consistent trailing_state2"
    by (simp add: consistent_def trailing_state2_def)
  show ?thesis
    using no_closing_tag_no_match [OF answer_segment] last_resort_consistent [OF cs]
    by (simp add: iteration_def g batch_search_def route_tags_def present_def)
qed

text \<open>
  C2 (the code departs from the claim on the OpenRouter backend).  The native loop stops
  at the chunk that completes a closing tag (\<open>native_stream_stops_at_closing_tag\<close>).
  The callback of the OpenRouter stream has no such test.  In the world \<open>trailing_env\<close>
  the first stream delivers the delta \<open><IMAGE>a red fox</IMAGE>\<close>, which contains a
  closing tag, and then the delta \<open> (more)\<close>: the second delta is appended to the final
  text and passed to the chunk sink.  The native backend, given the same two deltas
  (\<open>fox_env\<close>), does not consume the second one.
\<close>

theorem openrouter_consumes_past_closing_tag:
  "has_closing_tag ''<IMAGE>a red fox</IMAGE>''
   \<and> runAutonomousAgent trailing_env openrouter_input =
       \<lparr>out_result = Inr \<lparr>msg_text = ''<IMAGE>a red fox</IMAGE> (more)Here is your fox.'',
                           msg_grounding = None\<rparr>,
        out_loops = 2,
        out_streamed = [''<IMAGE>a red fox</IMAGE>'', '' (more)'', ''Here is your fox.'']\<rparr>
   \<and> runAutonomousAgent fox_env native_input =
       \<lparr>out_result = Inr \<lparr>msg_text = ''<IMAGE>a red fox</IMAGE>Here is your fox.'',
                           msg_grounding = None\<rparr>,
        out_loops = 2,
        out_streamed = [''<IMAGE>a red fox</IMAGE>'', ''Here is your fox.'']\<rparr>"
proof -
  have s0: "(initial_search trailing_env openrouter_cfg (initial_state openrouter_cfg []))
      \<lparr>currentAction := SIMPLE\<rparr> = initial_state openrouter_cfg []"
    by (simp add: initial_search_openrouter initial_state_def)
  have l2: "agent_loop trailing_env openrouter_cfg (Suc 0) trailing_state1 =
      (Suc (Suc 0), None, trailing_state2)"
    by (rule agent_loop_step(1)) (simp_all add: MAX_LOOPS_def trailing_env_quiet trailing_iteration2)
  have l1: "agent_loop trailing_env openrouter_cfg 0 (initial_state openrouter_cfg []) =
      (Suc (Suc 0), None, trailing_state2)"
    using agent_loop_step(3) [of 0 trailing_env openrouter_cfg "initial_state openrouter_cfg []"
        trailing_state1] l2
    by (simp add: MAX_LOOPS_def trailing_env_quiet trailing_iteration1)
  have "runAutonomousAgent trailing_env openrouter_input =
      settle trailing_env (Suc (Suc 0), None, trailing_state2)"
    using run_normal [OF _ choose_openrouter, of trailing_env]
      try_block_loop [OF trailing_env_quiet(1) trailing_env_quiet(2), of openrouter_cfg "[]"]
    by (simp add: openrouter_input_def s0 l1)
  then show ?thesis
    by (simp add: settle_def final_message_def trailing_state2_def image_segment fox_run)
qed

text \<open>
  Cancellation in the middle of a stream, in iteration \<open>n + 1\<close> of the loop, from a
  consistent state \<open>st\<close>.
  \<^item> Native backend: the signal is found aborted when the chunk after \<open>cs1\<close> arrives (and
    was not before; no closing tag has ended the stream earlier).  The call is fulfilled
    with a message whose text is exactly the text accumulated until then: the text of
    \<open>st\<close> followed by the texts of the chunks \<open>cs1\<close> (the empty text when nothing had
    accumulated).
  \<^item> OpenRouter backend: the read after the chunks of the response rejects with an
    \<open>AbortError\<close> (the stream was not ended by \<open>[DONE]\<close> before; \<open>ds\<close> are the deltas of its
    complete lines).  The call is fulfilled with a message whose text is the text of \<open>st\<close>
    followed by \<open>ds\<close>, or \<open>(Generation stopped by user)\<close> when that text is empty.
  In both cases the result is a fulfilled promise, never a rejection.
\<close>

theorem cancellation_returns_accumulated_text:
  "(cfg_native cfg \<and> n < MAX_LOOPS \<and> \<not> aborted_at_loop env n \<and> consistent st
      \<and> generateContentStreamWithRetry (gemini env (Suc n) (currentPrompt st)) (cfg_model cfg) 3
            = (evs, Inr stream)
      \<and> ns_chunks stream = cs1 @ c # cs2
      \<and> (\<forall>i < length cs1. \<not> aborted_at_chunk env (Suc n) i)
      \<and> aborted_at_chunk env (Suc n) (length cs1)
      \<and> \<not> has_closing_tag (concat (map chunk_text cs1))
    \<longrightarrow> (\<exists>m. out_result (settle env (agent_loop env cfg n st)) = Inr m
            \<and> msg_text m = finalResponseText st @ concat (map chunk_text cs1)))
   \<and> (\<not> cfg_native cfg \<and> cfg_key cfg = Some k \<and> n < MAX_LOOPS \<and> \<not> aborted_at_loop env n
      \<and> openrouter env (Suc n) (currentPrompt st) = Inr r
      \<and> response_ok r \<and> resp_has_body r
      \<and> resp_failure r = Some e \<and> err_name e = ''AbortError''
      \<and> sse_whole_stream (decode_json env) collect (Some e) (resp_reads r) [] = (Some e, ds)
      \<and> (\<forall>i. \<not> aborted_at_delta env (Suc n) i)
    \<longrightarrow> out_result (settle env (agent_loop env cfg n st)) =
          Inr \<lparr>msg_text = (if finalResponseText st @ concat ds = [] then STOPPED_BY_USER
                            else finalResponseText st @ concat ds),
               msg_grounding = None\<rparr>)"
proof (intro conjI impI)
  assume h: "cfg_native cfg \<and> n < MAX_LOOPS \<and> \<not> aborted_at_loop env n \<and> consistent st
      \<and> generateContentStreamWithRetry (gemini env (Suc n) (currentPrompt st)) (cfg_model cfg) 3
            = (evs, Inr stream)
      \<and> ns_chunks stream = cs1 @ c # cs2
      \<and> (\<forall>i < length cs1. \<not> aborted_at_chunk env (Suc n) i)
      \<and> aborted_at_chunk env (Suc n) (length cs1)
      \<and> \<not> has_closing_tag (concat (map chunk_text cs1))"
  then obtain st' where "iteration env cfg (Suc n) st = Return st'"
    and f: "finalResponseText st' = finalResponseText st @ concat (map chunk_text cs1)"
    using native_cancel_iteration [of cfg env "Suc n" st evs stream cs1 c cs2] by blast
  with h have "agent_loop env cfg n st = (Suc n, None, st')"
    using agent_loop_step(1) by blast
  with f show "\<exists>m. out_result (settle env (agent_loop env cfg n st)) = Inr m
            \<and> msg_text m = finalResponseText st @ concat (map chunk_text cs1)"
    by (simp add: settle_def final_message_def)
next
  assume h: "\<not> cfg_native cfg \<and> cfg_key cfg = Some k \<and> n < MAX_LOOPS \<and> \<not> aborted_at_loop env n
      \<and> openrouter env (Suc n) (currentPrompt st) = Inr r
      \<and> response_ok r \<and> resp_has_body r
      \<and> resp_failure r = Some e \<and> err_name e = ''AbortError''
      \<and> sse_whole_stream (decode_json env) collect (Some e) (resp_reads r) [] = (Some e, ds)
      \<and> (\<forall>i. \<not> aborted_at_delta env (Suc n) i)"
  then obtain st' where "iteration env cfg (Suc n) st = Throw e st'"
    and f: "finalResponseText st' = finalResponseText st @ concat ds"
    using openrouter_abort_iteration [of cfg k env "Suc n" st r e ds] by blast
  with h have "agent_loop env cfg n st = (Suc n, Some e, st')"
    using agent_loop_step(2) by blast
  with f h show "out_result (settle env (agent_loop env cfg n st)) =
          Inr \<lparr>msg_text = (if finalResponseText st @ concat ds = [] then STOPPED_BY_USER
                            else finalResponseText st @ concat ds),
               msg_grounding = None\<rparr>"
    by (simp add: settle_def catch_block_def)
qed

lemma run_as_loop:
  assumes "in_thinkingMode inp \<noteq> Instant" and "choose_model inp = (cfg, [])"
    and "route_result env = Inr SIMPLE" and "memory_failure env = None"
    and "initial_search env cfg (initial_state cfg []) = initial_state cfg []"
  shows "runAutonomousAgent env inp = settle env (agent_loop env cfg 0 (initial_state cfg []))"
proof -
  have "(initial_state cfg [])\<lparr>currentAction := SIMPLE\<rparr> = initial_state cfg []"
    by (simp add: initial_state_def)
  with assms show ?thesis
    using run_normal [OF assms(1,2), of env] try_block_loop [OF assms(3,4), of cfg "[]"]
    by simp
qed

lemma sample_modes:
  "in_thinkingMode native_input \<noteq> Instant" "in_thinkingMode openrouter_input \<noteq> Instant"
  "in_thinkingMode instant_input = Instant"
  by (simp_all add: native_input_def openrouter_input_def instant_input_def)

lemma hello_segment: "\<not> has_closing_tag ''Hello wor''"
  by (simp add: has_closing_tag_def closing_tags_def str_includes_def startsWith_def)

lemma abort_lines:
  "butlast (split_nl (concat [data_line ''Hel'' @ [CHR 0x0A] @ ''data: {''])) = [data_line ''Hel'']"
  by (simp add: data_line_def sse_json_def)

theorem cancellation_examples:
  "(\<exists>m. out_result (runAutonomousAgent cancel_env native_input) = Inr m \<and> msg_text m = ''Hello wor'')
   \<and> out_result (runAutonomousAgent abort_env openrouter_input) =
       Inr \<lparr>msg_text = ''Hel'', msg_grounding = None\<rparr>
   \<and> out_result (runAutonomousAgent abort_at_once_env openrouter_input) =
       Inr \<lparr>msg_text = ''(Generation stopped by user)'', msg_grounding = None\<rparr>"
proof -
  have q1: "route_result cancel_env = Inr SIMPLE" "memory_failure cancel_env = None"
    "\<not> aborted_at_loop cancel_env 0"
    "\<forall>i < length [text_chunk ''Hello '', text_chunk ''wor'']. \<not> aborted_at_chunk cancel_env (Suc 0) i"
    "aborted_at_chunk cancel_env (Suc 0) (length [text_chunk ''Hello '', text_chunk ''wor''])"
    by (simp_all add: cancel_env_def quiet_env_def)
  have r1: "generateContentStreamWithRetry
      (gemini cancel_env (Suc 0) (currentPrompt (initial_state native_cfg []))) (cfg_model native_cfg) 3
      = ([Call ''gemini-2.5-flash''], Inr (plain_stream [''Hello '', ''wor'', ''ld'']))"
    using retry_success [of "gemini cancel_env (Suc 0) (currentPrompt (initial_state native_cfg []))"
        "''gemini-2.5-flash''" "plain_stream [''Hello '', ''wor'', ''ld'']"]
    by (simp add: cancel_env_def native_cfg_def)
  have c1: "ns_chunks (plain_stream [''Hello '', ''wor'', ''ld'']) =
      [text_chunk ''Hello '', text_chunk ''wor''] @ text_chunk ''ld'' # []"
    by (simp add: plain_stream_def)
  have t1: "\<not> has_closing_tag (concat (map chunk_text [text_chunk ''Hello '', text_chunk ''wor'']))"
    using hello_segment by (simp add: text_chunk_def)
  have k1: "consistent (initial_state native_cfg [])" "cfg_native native_cfg"
    "finalResponseText (initial_state native_cfg []) = []"
    by (simp_all add: consistent_def initial_state_def native_cfg_def)
  have n: "0 < MAX_LOOPS" by (simp add: MAX_LOOPS_def)
  have a: "\<exists>m. out_result (runAutonomousAgent cancel_env native_input) = Inr m
      \<and> msg_text m = ''Hello wor''"
    using cancellation_returns_accumulated_text [where cfg = native_cfg and n = 0 and env = cancel_env
        and st = "initial_state native_cfg []" and evs = "[Call ''gemini-2.5-flash'']"
        and stream = "plain_stream [''Hello '', ''wor'', ''ld'']"
        and ?cs1.0 = "[text_chunk ''Hello '', text_chunk ''wor'']" and c = "text_chunk ''ld''"
        and ?cs2.0 = "[]"]
      q1 r1 c1 t1 k1 n
      run_as_loop [OF sample_modes(1) choose_native q1(1) q1(2) initial_search_native]
    by (simp add: text_chunk_def)
  have c2: "\<not> cfg_native openrouter_cfg" "cfg_key openrouter_cfg = Some ''sk-or-1''"
    "finalResponseText (initial_state openrouter_cfg []) = []"
    by (simp_all add: openrouter_cfg_def initial_state_def)
  have e: "err_name abort_error = ''AbortError''" by (simp add: abort_error_def)
  have q2: "route_result abort_env = Inr SIMPLE" "memory_failure abort_env = None"
    "\<not> aborted_at_loop abort_env 0" "\<forall>i. \<not> aborted_at_delta abort_env (Suc 0) i"
    "decode_json abort_env = sample_decode"
    "openrouter abort_env (Suc 0) p =
       Inr (sse_response [data_line ''Hel'' @ [CHR 0x0A] @ ''data: {''] (Some abort_error))" for p
    by (simp_all add: abort_env_def quiet_env_def)
  have w2: "sse_whole_stream (decode_json abort_env) collect (Some abort_error)
      (resp_reads (sse_response [data_line ''Hel'' @ [CHR 0x0A] @ ''data: {''] (Some abort_error))) []
      = (Some abort_error, [''Hel''])"
    unfolding sse_whole_stream_def sse_response_ok abort_lines q2 sample_deltas by simp
  have b: "out_result (runAutonomousAgent abort_env openrouter_input) =
       Inr \<lparr>msg_text = ''Hel'', msg_grounding = None\<rparr>"
    using cancellation_returns_accumulated_text [where cfg = openrouter_cfg and n = 0
        and env = abort_env and st = "initial_state openrouter_cfg []" and k = "''sk-or-1''"
        and r = "sse_response [data_line ''Hel'' @ [CHR 0x0A] @ ''data: {''] (Some abort_error)"
        and e = abort_error and ds = "[''Hel'']"]
      c2 e q2(1-4) q2(6) w2 n sse_response_ok
      run_as_loop [OF sample_modes(2) choose_openrouter q2(1) q2(2) initial_search_openrouter]
    by simp
  have q3: "route_result abort_at_once_env = Inr SIMPLE" "memory_failure abort_at_once_env = None"
    "\<not> aborted_at_loop abort_at_once_env 0" "\<forall>i. \<not> aborted_at_delta abort_at_once_env (Suc 0) i"
    "decode_json abort_at_once_env = sample_decode"
    "openrouter abort_at_once_env (Suc 0) p = Inr (sse_response [] (Some abort_error))" for p
    by (simp_all add: abort_at_once_env_def quiet_env_def)
  have w3: "sse_whole_stream (decode_json abort_at_once_env) collect (Some abort_error)
      (resp_reads (sse_response [] (Some abort_error))) [] = (Some abort_error, [])"
    unfolding sse_whole_stream_def sse_response_ok by simp
  have c: "out_result (runAutonomousAgent abort_at_once_env openrouter_input) =
       Inr \<lparr>msg_text = ''(Generation stopped by user)'', msg_grounding = None\<rparr>"
    using cancellation_returns_accumulated_text [where cfg = openrouter_cfg and n = 0
        and env = abort_at_once_env and st = "initial_state openrouter_cfg []" and k = "''sk-or-1''"
        and r = "sse_response [] (Some abort_error)" and e = abort_error and ds = "[]"]
      c2 e q3(1-4) q3(6) w3 n sse_response_ok
      run_as_loop [OF sample_modes(2) choose_openrouter q3(1) q3(2) initial_search_openrouter]
    by (simp add: STOPPED_BY_USER_def)
  from a b c show ?thesis by simp
qed

text \<open>
  C3 (the code departs from the claim on the native backend).  When the native loop finds
  the signal aborted before any text has accumulated, the call is fulfilled with the
  empty text, not with the placeholder \<open>(Generation stopped by user)\<close>.  The \<open>catch\<close>
  block, which handles the \<open>AbortError\<close> of the OpenRouter stream, does put the
  placeholder in place of an empty text.  In every other respect the claim holds on both
  backends (\<open>cancellation_returns_accumulated_text\<close>): the result is a fulfilled promise
  and its text is exactly the text accumulated before the cancellation.
\<close>

theorem native_cancel_before_text:
  "runAutonomousAgent early_cancel_env native_input =
     \<lparr>out_result = Inr \<lparr>msg_text = [], msg_grounding = None\<rparr>,
      out_loops = 1, out_streamed = []\<rparr>
   \<and> out_result (runAutonomousAgent abort_at_once_env openrouter_input) =
       Inr \<lparr>msg_text = ''(Generation stopped by user)'', msg_grounding = None\<rparr>"
proof -
  have q: "route_result early_cancel_env = Inr SIMPLE" "memory_failure early_cancel_env = None"
    "\<not> aborted_at_loop early_cancel_env 0" "aborted_at_chunk early_cancel_env n i" for n i
    by (simp_all add: early_cancel_env_def quiet_env_def)
  have r: "generateContentStreamWithRetry (gemini early_cancel_env (Suc 0) p) ''gemini-2.5-flash'' 3 =
      ([Call ''gemini-2.5-flash''], Inr (plain_stream [''Hello '']))" for p
    by (rule retry_success) (simp_all add: early_cancel_env_def)
  have g: "generate early_cancel_env native_cfg (Suc 0) (initial_state native_cfg []) =
      (None, [], initial_state native_cfg [])"
    by (simp add: generate_def native_cfg_def r plain_stream_def notices_of_def text_chunk_def q
          initial_state_def)
  have e: "\<not> has_closing_tag []"
    by (simp add: has_closing_tag_def closing_tags_def str_includes_def)
  have c: "consistent (initial_state native_cfg [])"
    by (simp add: consistent_def initial_state_def)
  have i: "iteration early_cancel_env native_cfg (Suc 0) (initial_state native_cfg []) =
      Return (initial_state native_cfg [])"
    using no_closing_tag_no_match [OF e] last_resort_consistent [OF c]
    by (simp add: iteration_def g batch_search_def route_tags_def present_def)
  have l: "agent_loop early_cancel_env native_cfg 0 (initial_state native_cfg []) =
      (Suc 0, None, initial_state native_cfg [])"
    by (rule agent_loop_step(1)) (simp_all add: MAX_LOOPS_def q i)
  have a: "runAutonomousAgent early_cancel_env native_input =
     \<lparr>out_result = Inr \<lparr>msg_text = [], msg_grounding = None\<rparr>,
      out_loops = 1, out_streamed = []\<rparr>"
    unfolding run_as_loop [OF sample_modes(1) choose_native q(1) q(2) initial_search_native] l
    by (simp add: settle_def final_message_def initial_state_def)
  have b: "out_result (runAutonomousAgent abort_at_once_env openrouter_input) =
       Inr \<lparr>msg_text = ''(Generation stopped by user)'', msg_grounding = None\<rparr>"
    using cancellation_examples by simp
  from a b show ?thesis by simp
qed

section \<open>Properties of the search pipeline\<close>

lemma has_content_iff: "has_content r \<longleftrightarrow> (\<exists>c. ws_content r = Some c \<and> 50 < length (trim c))"
  by (auto simp: has_content_def trim_def split: option.splits)

lemma fetch_in_time:
  "jina_duration env (take limit results) \<le> SEARCH_TIMEOUT_MS \<Longrightarrow>
   fetchContentsForResults env results limit =
     filter has_content (map (with_content (jina_content env)) (take limit results))"
  by (simp add: fetchContentsForResults_def Let_def)

lemma fetch_timed_out:
  "SEARCH_TIMEOUT_MS < jina_duration env (take limit results) \<Longrightarrow>
   fetchContentsForResults env results limit = take limit results"
  by (simp add: fetchContentsForResults_def Let_def)

lemma parallelResults_append:
  "parallelResults env (qs1 @ q # qs2) =
     parallelResults env qs1 @ (q, run_query env q) # parallelResults env qs2"
  by (simp add: parallelResults_def)

lemma run_query_in_time:
  "mcp_search env q 20 = Inr results \<Longrightarrow>
   jina_duration env (take 20 results) \<le> SEARCH_TIMEOUT_MS \<Longrightarrow>
   list_all has_content (run_query env q)"
  by (simp add: run_query_def fetch_in_time list_all_iff)

lemma batch_search_runs:
  assumes "sm \<noteq> []" and "extract_queries sm \<noteq> []" and "\<not> cfg_supports_search cfg"
  shows "batch_search env cfg sm st =
     (if validResults env (extract_queries sm) = [] then Inr None
      else Inr (Some (st\<lparr>metadataPayload :=
                            add_metadata (metadataPayload st)
                              (allNewMeta (validResults env (extract_queries sm))),
                          fallbackSearchContext :=
                            aggregatedContext (validResults env (extract_queries sm)),
                          currentPrompt :=
                            synthesisPrompt (cfg_prompt cfg) (extract_queries sm)
                              (aggregatedContext (validResults env (extract_queries sm))),
                          currentAction := SIMPLE\<rparr>)))"
  using assms
  by (cases "extract_queries sm")
     (simp_all add: batch_search_def shouldUseExternalSearch_def Let_def)

text \<open>The sample search worlds.\<close>

lemma long_text_content:
  "trim long_text = long_text" "length long_text = 60" "long_text \<noteq> []"
  by (simp_all add: long_text_def trim_id is_space_def)

lemma short_text_content: "length (trim ''too short'') = 9"
  by (simp add: trim_def is_space_def)

lemma search_world_facts:
  "mcp_search search_world ''alpha'' 20 = Inr [page_a, page_b]"
  "mcp_search search_world ''beta'' 20 = Inl (mk_error ''search failed'')"
  "jina_duration search_world rs = 1200"
  "jina_content search_world (ws_url page_a) = long_text"
  "jina_content search_world (ws_url page_b) = ''too short''"
  "jina_content search_world (ws_url page_c) = replicate 15001 (CHR ''y'')"
  by (simp_all add: search_world_def quiet_env_def page_a_def page_b_def page_c_def)

lemma slow_world_facts:
  "mcp_search slow_world ''alpha'' 20 = Inr [page_a, page_b]"
  "mcp_search slow_world ''beta'' 20 = Inl (mk_error ''search failed'')"
  "jina_duration slow_world rs = 9000"
  by (simp_all add: slow_world_def search_world_def quiet_env_def)

lemma fetched_pages:
  "with_content (jina_content search_world) page_a = fetched_a"
  "has_content fetched_a"
  "\<not> has_content (with_content (jina_content search_world) page_b)"
  "with_content (jina_content search_world) page_c = fetched_c"
  "has_content fetched_c"
proof -
  show a: "with_content (jina_content search_world) page_a = fetched_a"
    by (simp add: with_content_def search_world_facts fetched_a_def long_text_def)
  show "has_content fetched_a"
    by (simp add: has_content_def fetched_a_def long_text_content)
  show "\<not> has_content (with_content (jina_content search_world) page_b)"
    by (simp add: has_content_def with_content_def search_world_facts short_text_content)
  show "with_content (jina_content search_world) page_c = fetched_c"
    by (simp add: with_content_def search_world_facts fetched_c_def)
  have "trim (replicate 15000 (CHR ''y'')) = replicate 15000 (CHR ''y'')"
    by (rule trim_id) (simp_all add: is_space_def)
  then show "has_content fetched_c"
    by (simp add: has_content_def fetched_c_def)
qed

lemma run_query_samples:
  "run_query search_world ''alpha'' = [fetched_a]"
  "run_query search_world ''beta'' = []"
  "run_query slow_world ''alpha'' = [page_a, page_b]"
  "run_query slow_world ''beta'' = []"
  by (simp_all add: run_query_def search_world_facts slow_world_facts fetchContentsForResults_def
        SEARCH_TIMEOUT_MS_def fetched_pages)

lemma valid_samples:
  "validResults search_world [''alpha'', ''beta''] = [(''alpha'', [fetched_a])]"
  "validResults slow_world [''alpha'', ''beta''] = [(''alpha'', [page_a, page_b])]"
  by (simp_all add: validResults_def parallelResults_def run_query_samples)

lemma search_segment:
  "search_matches ''<SEARCH>alpha</SEARCH><SEARCH> beta </SEARCH>'' = [''alpha'', '' beta '']"
  by (simp add: search_matches.simps match_tag_def startsWith_def)

lemma sample_queries:
  "extract_queries [''alpha'', '' beta ''] = [''alpha'', ''beta'']"
  "extract_queries [''beta''] = [''beta'']"
  by (simp_all add: extract_queries_def trim_def is_space_def)

lemma answer_segment2: "\<not> has_closing_tag ''Alpha is first [1].''"
  by (simp add: has_closing_tag_def closing_tags_def str_includes_def startsWith_def)

lemma validResults_cong:
  assumes "mcp_search a = mcp_search b" and "jina_content a = jina_content b"
    and "jina_duration a = jina_duration b"
  shows "validResults a qs = validResults b qs"
proof -
  have "run_query a q = run_query b q" for q
    using assms by (simp add: run_query_def fetchContentsForResults_def Let_def split: sum.splits)
  then show ?thesis by (simp add: validResults_def parallelResults_def)
qed

lemma search_run_quiet:
  "route_result search_run_world = Inr SIMPLE" "memory_failure search_run_world = None"
  "\<not> aborted_at_loop search_run_world n" "\<forall>i. \<not> aborted_at_delta search_run_world n i"
  "decode_json search_run_world = sample_decode"
  by (simp_all add: search_run_world_def search_world_def quiet_env_def)

lemma search_run_valid: "validResults search_run_world qs = validResults search_world qs"
  by (rule validResults_cong) (simp_all add: search_run_world_def)

lemma cfg_facts:
  "\<not> cfg_native openrouter_cfg" "cfg_key openrouter_cfg = Some ''sk-or-1''"
  "\<not> cfg_supports_search openrouter_cfg" "cfg_prompt openrouter_cfg = ''draw a fox''"
  by (simp_all add: openrouter_cfg_def)

lemma search_batch:
  "batch_search search_world openrouter_cfg [''alpha'', '' beta ''] st =
     Inr (Some (st\<lparr>metadataPayload := add_metadata (metadataPayload st) [cite fetched_a],
                   fallbackSearchContext := aggregatedContext [(''alpha'', [fetched_a])],
                   currentPrompt :=
                     synthesisPrompt ''draw a fox'' [''alpha'', ''beta'']
                       (aggregatedContext [(''alpha'', [fetched_a])]),
                   currentAction := SIMPLE\<rparr>))"
  by (simp add: batch_search_runs sample_queries cfg_facts valid_samples allNewMeta_def)

lemma undefined_context:
  "query_context (''alpha'', [page_a, page_b]) =
     [CHR 0x0A, CHR 0x0A] @ ''=== WEB RESULTS FOR QUERY: '' @ [CHR 0x22] @ ''alpha'' @ [CHR 0x22]
       @ '' ==='' @ [CHR 0x0A]
       @ ''[1] Alpha (https://a.example):'' @ [CHR 0x0A] @ ''undefined'' @ [CHR 0x0A, CHR 0x0A]
       @ ''[2] Beta (https://b.example):'' @ [CHR 0x0A] @ ''undefined''"
  by (simp add: query_context_def render_page_def page_a_def page_b_def show_nat.simps
        digit_char_def)

lemma search_lines:
  "butlast (split_nl (concat
      [data_line ''<SEARCH>alpha</SEARCH><SEARCH> beta </SEARCH>'' @ [CHR 0x0A]])) =
     [data_line ''<SEARCH>alpha</SEARCH><SEARCH> beta </SEARCH>'']"
  "butlast (split_nl (concat [data_line ''Alpha is first [1].'' @ [CHR 0x0A]])) =
     [data_line ''Alpha is first [1].'']"
  by (simp_all add: data_line_def sse_json_def)

lemma search_iteration1:
  "iteration search_run_world openrouter_cfg (Suc 0) (initial_state openrouter_cfg []) =
     Continue search_state1"
proof -
  have o: "openrouter search_run_world (Suc 0) p = Inr (sse_response
      [data_line ''<SEARCH>alpha</SEARCH><SEARCH> beta </SEARCH>'' @ [CHR 0x0A]] None)" for p
    by (simp add: search_run_world_def)
  have pl: "process_lines (decode_json search_run_world) collect (butlast (split_nl (concat
      [data_line ''<SEARCH>alpha</SEARCH><SEARCH> beta </SEARCH>'' @ [CHR 0x0A]]))) []
      = (False, [''<SEARCH>alpha</SEARCH><SEARCH> beta </SEARCH>''])"
    unfolding search_lines search_run_quiet sample_deltas by simp
  let ?st = "(initial_state openrouter_cfg [])
      \<lparr>finalResponseText := ''<SEARCH>alpha</SEARCH><SEARCH> beta </SEARCH>'',
       streamed := [''<SEARCH>alpha</SEARCH><SEARCH> beta </SEARCH>'']\<rparr>"
  have g: "generate search_run_world openrouter_cfg (Suc 0) (initial_state openrouter_cfg []) =
      (None, ''<SEARCH>alpha</SEARCH><SEARCH> beta </SEARCH>'', ?st)"
    using openrouter_generate [OF cfg_facts(1) cfg_facts(2) o search_run_quiet(4) pl,
        where st = "initial_state openrouter_cfg []"]
    by (simp add: initial_state_def)
  have b: "batch_search search_run_world openrouter_cfg [''alpha'', '' beta ''] ?st =
      Inr (Some search_state1)"
    by (simp add: batch_search_runs sample_queries cfg_facts search_run_valid valid_samples
          allNewMeta_def add_metadata_def)
       (simp add: search_state1_def initial_state_def cfg_facts)
  show ?thesis
    by (simp add: iteration_def g search_segment b)
qed

lemma search_iteration2:
  "iteration search_run_world openrouter_cfg (Suc (Suc 0)) search_state1 = Return search_state2"
proof -
  have o: "openrouter search_run_world (Suc (Suc 0)) p =
      Inr (sse_response [data_line ''Alpha is first [1].'' @ [CHR 0x0A]] None)" for p
    by (simp add: search_run_world_def)
  have pl: "process_lines (decode_json search_run_world) collect (butlast (split_nl (concat
      [data_line ''Alpha is first [1].'' @ [CHR 0x0A]]))) [] = (False, [''Alpha is first [1].''])"
    unfolding search_lines search_run_quiet sample_deltas by simp
  have g: "generate search_run_world openrouter_cfg (Suc (Suc 0)) search_state1 =
      (None, ''Alpha is first [1].'', search_state2)"
    using openrouter_generate [OF cfg_facts(1) cfg_facts(2) o search_run_quiet(4) pl,
        where st = search_state1]
    by (simp add: search_state1_def search_state2_def)
  have "trim (finalResponseText search_state2) \<noteq> []"
    by (simp add: search_state2_def trim_empty_iff is_space_def)
  then have cs: "consistent search_state2"
    by (simp add: consistent_def)
  show ?thesis
    using no_closing_tag_no_match [OF answer_segment2] last_resort_consistent [OF cs]
    by (simp add: iteration_def g batch_search_def route_tags_def present_def)
qed

lemma search_run:
  "runAutonomousAgent search_run_world openrouter_input =
     \<lparr>out_result =
        Inr \<lparr>msg_text = ''<SEARCH>alpha</SEARCH><SEARCH> beta </SEARCH>Alpha is first [1].'',
             msg_grounding = Some [\<lparr>cite_uri = ''https://a.example'', cite_title = ''Alpha''\<rparr>]\<rparr>,
      out_loops = 2,
      out_streamed = [''<SEARCH>alpha</SEARCH><SEARCH> beta </SEARCH>'', ''Alpha is first [1].'']\<rparr>"
proof -
  have l2: "agent_loop search_run_world openrouter_cfg (Suc 0) search_state1 =
      (Suc (Suc 0), None, search_state2)"
    by (rule agent_loop_step(1)) (simp_all add: MAX_LOOPS_def search_run_quiet search_iteration2)
  have l1: "agent_loop search_run_world openrouter_cfg 0 (initial_state openrouter_cfg []) =
      (Suc (Suc 0), None, search_state2)"
    using agent_loop_step(3) [of 0 search_run_world openrouter_cfg "initial_state openrouter_cfg []"
        search_state1] l2
    by (simp add: MAX_LOOPS_def search_run_quiet search_iteration1)
  have "runAutonomousAgent search_run_world openrouter_input =
      settle search_run_world (Suc (Suc 0), None, search_state2)"
    using run_as_loop [OF sample_modes(2) choose_openrouter search_run_quiet(1) search_run_quiet(2)
        initial_search_openrouter]
    by (simp add: l1)
  then show ?thesis
    by (simp add: settle_def final_message_def search_state2_def search_state1_def cite_def
          fetched_a_def page_a_def)
qed

text \<open>
  C7 (as amended).  In a batch search each query is run on its own: a query whose search
  fails yields an empty page list and the other queries keep their results.  A query is
  valid when its page list is not empty.  When the content fetch ends within the
  timeout, every page returned carries fetched content of more than 50 characters once
  trimmed, so a valid query has at least one page with non-trivial fetched content; when
  the fetch times out, the pages are the first 20 search results as they are.  A model
  with search of its own runs no batch.  Otherwise, with at least one non-empty query:
  if no query is valid the batch takes no action and the iteration goes on with the tag
  checks; if at least one is valid, the citation list gains the \<open>{uri, title}\<close> entries of
  the pages of the valid queries, in order, and of nothing else, the aggregated context
  and the synthesis prompt are built from those pages, the action becomes \<open>SIMPLE\<close>
  and the loop continues with the synthesis prompt.
\<close>

theorem batch_search_partial_failure:
  "(mcp_search env q 20 = Inl e \<longrightarrow> run_query env q = [])
   \<and> parallelResults env (qs1 @ q # qs2) =
        parallelResults env qs1 @ (q, run_query env q) # parallelResults env qs2
   \<and> validResults env queries = filter (\<lambda>r. snd r \<noteq> []) (parallelResults env queries)
   \<and> (mcp_search env q 20 = Inr results
        \<and> jina_duration env (take 20 results) \<le> SEARCH_TIMEOUT_MS \<longrightarrow>
        list_all has_content (run_query env q))
   \<and> (mcp_search env q 20 = Inr results
        \<and> SEARCH_TIMEOUT_MS < jina_duration env (take 20 results) \<longrightarrow>
        run_query env q = take 20 results)
   \<and> (cfg_supports_search cfg \<longrightarrow> batch_search env cfg sm st = Inr None)
   \<and> (sm \<noteq> [] \<and> extract_queries sm \<noteq> [] \<and> \<not> cfg_supports_search cfg \<longrightarrow>
        (validResults env (extract_queries sm) = [] \<longrightarrow> batch_search env cfg sm st = Inr None)
      \<and> (validResults env (extract_queries sm) \<noteq> [] \<longrightarrow>
           batch_search env cfg sm st =
             Inr (Some (st\<lparr>metadataPayload :=
                              Some ((case metadataPayload st of None \<Rightarrow> [] | Some old \<Rightarrow> old)
                                @ concat (map (\<lambda>r. map cite (snd r))
                                            (validResults env (extract_queries sm)))),
                            fallbackSearchContext :=
                              aggregatedContext (validResults env (extract_queries sm)),
                            currentPrompt :=
                              synthesisPrompt (cfg_prompt cfg) (extract_queries sm)
                                (aggregatedContext (validResults env (extract_queries sm))),
                            currentAction := SIMPLE\<rparr>))))
   \<and> (generate env cfg n st0 = (None, g, st) \<longrightarrow>
        (batch_search env cfg (search_matches g) st = Inr None \<longrightarrow>
           iteration env cfg n st0 = route_tags g (search_matches g) st)
      \<and> (batch_search env cfg (search_matches g) st = Inr (Some st') \<longrightarrow>
           iteration env cfg n st0 = Continue st'))"
proof (intro conjI impI)
  assume "mcp_search env q 20 = Inl e"
  then show "run_query env q = []" by (simp add: run_query_def)
next
  show "parallelResults env (qs1 @ q # qs2) =
        parallelResults env qs1 @ (q, run_query env q) # parallelResults env qs2"
    by (rule parallelResults_append)
next
  show "validResults env queries = filter (\<lambda>r. snd r \<noteq> []) (parallelResults env queries)"
    by (simp add: validResults_def)
next
  assume "mcp_search env q 20 = Inr results
        \<and> jina_duration env (take 20 results) \<le> SEARCH_TIMEOUT_MS"
  then show "list_all has_content (run_query env q)"
    using run_query_in_time by blast
next
  assume "mcp_search env q 20 = Inr results
        \<and> SEARCH_TIMEOUT_MS < jina_duration env (take 20 results)"
  then show "run_query env q = take 20 results"
    by (simp add: run_query_def fetch_timed_out)
next
  assume "cfg_supports_search cfg"
  then show "batch_search env cfg sm st = Inr None"
    by (simp add: batch_search_def shouldUseExternalSearch_def Let_def)
next
  assume "sm \<noteq> [] \<and> extract_queries sm \<noteq> [] \<and> \<not> cfg_supports_search cfg"
    and "validResults env (extract_queries sm) = []"
  then show "batch_search env cfg sm st = Inr None"
    using batch_search_runs [of sm cfg env st] by simp
next
  assume "sm \<noteq> [] \<and> extract_queries sm \<noteq> [] \<and> \<not> cfg_supports_search cfg"
    and "validResults env (extract_queries sm) \<noteq> []"
  then show "batch_search env cfg sm st =
             Inr (Some (st\<lparr>metadataPayload :=
                              Some ((case metadataPayload st of None \<Rightarrow> [] | Some old \<Rightarrow> old)
                                @ concat (map (\<lambda>r. map cite (snd r))
                                            (validResults env (extract_queries sm)))),
                            fallbackSearchContext :=
                              aggregatedContext (validResults env (extract_queries sm)),
                            currentPrompt :=
                              synthesisPrompt (cfg_prompt cfg) (extract_queries sm)
                                (aggregatedContext (validResults env (extract_queries sm))),
                            currentAction := SIMPLE\<rparr>))"
    using batch_search_runs [of sm cfg env st] by (simp add: add_metadata_def allNewMeta_def)
next
  assume "generate env cfg n st0 = (None, g, st)"
    and "batch_search env cfg (search_matches g) st = Inr None"
  then show "iteration env cfg n st0 = route_tags g (search_matches g) st"
    by (simp add: iteration_def)
next
  assume "generate env cfg n st0 = (None, g, st)"
    and "batch_search env cfg (search_matches g) st = Inr (Some st')"
  then show "iteration env cfg n st0 = Continue st'"
    by (simp add: iteration_def)
qed

theorem batch_search_partial_failure_witness:
  "run_query search_world ''beta'' = []
   \<and> parallelResults search_world [''alpha'', ''beta''] = [(''alpha'', [fetched_a]), (''beta'', [])]
   \<and> validResults search_world [''alpha'', ''beta''] = [(''alpha'', [fetched_a])]
   \<and> list_all has_content (run_query search_world ''alpha'')
   \<and> run_query slow_world ''alpha'' = [page_a, page_b]
   \<and> batch_search search_world openrouter_cfg [''beta''] (initial_state openrouter_cfg []) = Inr None
   \<and> batch_search search_world openrouter_cfg [''alpha'', '' beta ''] (initial_state openrouter_cfg []) =
       Inr (Some ((initial_state openrouter_cfg [])
          \<lparr>metadataPayload := Some [cite fetched_a],
           fallbackSearchContext := aggregatedContext [(''alpha'', [fetched_a])],
           currentPrompt :=
             synthesisPrompt ''draw a fox'' [''alpha'', ''beta'']
               (aggregatedContext [(''alpha'', [fetched_a])]),
           currentAction := SIMPLE\<rparr>))
   \<and> runAutonomousAgent search_run_world openrouter_input =
       \<lparr>out_result =
          Inr \<lparr>msg_text = ''<SEARCH>alpha</SEARCH><SEARCH> beta </SEARCH>Alpha is first [1].'',
               msg_grounding = Some [\<lparr>cite_uri = ''https://a.example'', cite_title = ''Alpha''\<rparr>]\<rparr>,
        out_loops = 2,
        out_streamed = [''<SEARCH>alpha</SEARCH><SEARCH> beta </SEARCH>'', ''Alpha is first [1].'']\<rparr>"
proof -
  have v0: "validResults search_world [''beta''] = []"
    by (simp add: validResults_def parallelResults_def run_query_samples)
  have d: "jina_duration search_world (take 20 [page_a, page_b]) \<le> SEARCH_TIMEOUT_MS"
    "SEARCH_TIMEOUT_MS < jina_duration slow_world (take 20 [page_a, page_b])"
    by (simp_all add: search_world_facts slow_world_facts SEARCH_TIMEOUT_MS_def)
  have m: "metadataPayload (initial_state openrouter_cfg []) = None"
    by (simp add: initial_state_def)
  have a: "run_query search_world ''beta'' = []"
    using batch_search_partial_failure [where env = search_world and q = "''beta''"
        and e = "mk_error ''search failed''"] search_world_facts
    by simp
  have b: "parallelResults search_world [''alpha'', ''beta''] =
      [(''alpha'', [fetched_a]), (''beta'', [])]"
    using batch_search_partial_failure [where env = search_world and q = "''beta''"
        and ?qs1.0 = "[''alpha'']" and ?qs2.0 = "[]"]
    by (simp add: parallelResults_def run_query_samples)
  have c: "validResults search_world [''alpha'', ''beta''] = [(''alpha'', [fetched_a])]"
    using batch_search_partial_failure [where env = search_world
        and queries = "[''alpha'', ''beta'']"] b
    by simp
  have e: "list_all has_content (run_query search_world ''alpha'')"
    using batch_search_partial_failure [where env = search_world and q = "''alpha''"
        and results = "[page_a, page_b]"] search_world_facts d
    by simp
  have f: "run_query slow_world ''alpha'' = [page_a, page_b]"
    using batch_search_partial_failure [where env = slow_world and q = "''alpha''"
        and results = "[page_a, page_b]"] slow_world_facts d
    by simp
  have g: "batch_search search_world openrouter_cfg [''beta''] (initial_state openrouter_cfg []) = Inr None"
    using batch_search_partial_failure [where env = search_world and cfg = openrouter_cfg
        and sm = "[''beta'']" and st = "initial_state openrouter_cfg []"] sample_queries cfg_facts v0
    by simp
  have h: "batch_search search_world openrouter_cfg [''alpha'', '' beta ''] (initial_state openrouter_cfg []) =
       Inr (Some ((initial_state openrouter_cfg [])
          \<lparr>metadataPayload := Some [cite fetched_a],
           fallbackSearchContext := aggregatedContext [(''alpha'', [fetched_a])],
           currentPrompt :=
             synthesisPrompt ''draw a fox'' [''alpha'', ''beta'']
               (aggregatedContext [(''alpha'', [fetched_a])]),
           currentAction := SIMPLE\<rparr>))"
    using batch_search_partial_failure [where env = search_world and cfg = openrouter_cfg
        and sm = "[''alpha'', '' beta '']" and st = "initial_state openrouter_cfg []"]
      sample_queries cfg_facts valid_samples m
    by simp
  from a b c e f g h search_run show ?thesis by simp
qed

text \<open>
  C7 as stated fails when the content fetch times out: the query \<open>alpha\<close> counts as
  valid although none of its pages has any fetched content.
\<close>

theorem timed_out_query_counts_as_valid_counterexample:
  "validResults slow_world [''alpha'', ''beta''] = [(''alpha'', [page_a, page_b])]
   \<and> ws_content page_a = None \<and> ws_content page_b = None
   \<and> \<not> has_content page_a \<and> \<not> has_content page_b"
  by (simp add: valid_samples has_content_def page_a_def page_b_def)

text \<open>
  C10.  The timer of \<open>fetchContentsForResults\<close> is 8000 ms.  When the fetches of the
  first \<open>limit\<close> results take longer, the function returns those results unchanged: no
  content is added and no page is filtered out.  Otherwise every page gets the fetched
  content cut to 15000 characters, and the pages whose trimmed content has 50
  characters or fewer are dropped.  So a query whose fetch timed out is valid as soon as
  the search found a page, even when no page has content, and its pages are rendered
  into the aggregated context with the text \<open>undefined\<close> in place of the content.
\<close>

theorem fetch_timeout_returns_snippets:
  "SEARCH_TIMEOUT_MS = 8000
   \<and> (SEARCH_TIMEOUT_MS < jina_duration env (take limit results) \<longrightarrow>
        fetchContentsForResults env results limit = take limit results)
   \<and> (jina_duration env (take limit results) \<le> SEARCH_TIMEOUT_MS \<longrightarrow>
        fetchContentsForResults env results limit =
          filter has_content
            (map (\<lambda>r. r\<lparr>ws_content := Some (take 15000 (jina_content env (ws_url r)))\<rparr>)
               (take limit results)))
   \<and> (has_content r \<longleftrightarrow> (\<exists>c. ws_content r = Some c \<and> 50 < length (trim c)))
   \<and> (mcp_search env q 20 = Inr results \<and> results \<noteq> []
        \<and> SEARCH_TIMEOUT_MS < jina_duration env (take 20 results)
        \<and> list_all (\<lambda>r. ws_content r = None) results \<longrightarrow>
        validResults env [q] = [(q, take 20 results)]
        \<and> list_all (\<lambda>p. ws_content p = None) (take 20 results)
        \<and> aggregatedContext (validResults env [q]) = query_context (q, take 20 results))
   \<and> (ws_content p = None \<longrightarrow>
        render_page (i, p) =
          ''['' @ show_nat (i + 1) @ ''] '' @ ws_title p @ '' ('' @ ws_url p @ ''):'' @ [CHR 0x0A]
            @ ''undefined'')"
proof (intro conjI impI)
  show "SEARCH_TIMEOUT_MS = 8000" by (simp add: SEARCH_TIMEOUT_MS_def)
next
  assume "SEARCH_TIMEOUT_MS < jina_duration env (take limit results)"
  then show "fetchContentsForResults env results limit = take limit results"
    by (rule fetch_timed_out)
next
  assume "jina_duration env (take limit results) \<le> SEARCH_TIMEOUT_MS"
  then show "fetchContentsForResults env results limit =
          filter has_content
            (map (\<lambda>r. r\<lparr>ws_content := Some (take 15000 (jina_content env (ws_url r)))\<rparr>)
               (take limit results))"
    using fetch_in_time [of env limit results] by (simp add: with_content_def [abs_def])
next
  show "has_content r \<longleftrightarrow> (\<exists>c. ws_content r = Some c \<and> 50 < length (trim c))"
    by (rule has_content_iff)
next
  assume h: "mcp_search env q 20 = Inr results \<and> results \<noteq> []
        \<and> SEARCH_TIMEOUT_MS < jina_duration env (take 20 results)
        \<and> list_all (\<lambda>r. ws_content r = None) results"
  then have r: "run_query env q = take 20 results"
    by (simp add: run_query_def fetch_timed_out)
  from h have ne: "take 20 results \<noteq> []" by (cases results) auto
  show v: "validResults env [q] = [(q, take 20 results)]"
    using r ne by (simp add: validResults_def parallelResults_def)
  show "list_all (\<lambda>p. ws_content p = None) (take 20 results)"
    using h by (auto simp: list_all_iff dest: in_set_takeD)
  show "aggregatedContext (validResults env [q]) = query_context (q, take 20 results)"
    unfolding v by (simp add: aggregatedContext_def)
next
  assume "ws_content p = None"
  then show "render_page (i, p) =
          ''['' @ show_nat (i + 1) @ ''] '' @ ws_title p @ '' ('' @ ws_url p @ ''):'' @ [CHR 0x0A]
            @ ''undefined''"
    by (simp add: render_page_def)
qed

theorem fetch_timeout_returns_snippets_witness:
  "fetchContentsForResults slow_world [page_a, page_b, page_c] 2 = [page_a, page_b]
   \<and> fetchContentsForResults search_world [page_a, page_b, page_c] 20 = [fetched_a, fetched_c]
   \<and> ws_content fetched_c = Some (replicate 15000 (CHR ''y''))
   \<and> validResults slow_world [''alpha''] = [(''alpha'', [page_a, page_b])]
   \<and> aggregatedContext (validResults slow_world [''alpha'']) =
       [CHR 0x0A, CHR 0x0A] @ ''=== WEB RESULTS FOR QUERY: '' @ [CHR 0x22] @ ''alpha'' @ [CHR 0x22]
         @ '' ==='' @ [CHR 0x0A]
         @ ''[1] Alpha (https://a.example):'' @ [CHR 0x0A] @ ''undefined'' @ [CHR 0x0A, CHR 0x0A]
         @ ''[2] Beta (https://b.example):'' @ [CHR 0x0A] @ ''undefined''
   \<and> render_page (0, page_a) = ''[1] Alpha (https://a.example):'' @ [CHR 0x0A] @ ''undefined''"
proof -
  have d: "SEARCH_TIMEOUT_MS < jina_duration slow_world rs"
    "jina_duration search_world rs \<le> SEARCH_TIMEOUT_MS" for rs
    by (simp_all add: search_world_facts slow_world_facts SEARCH_TIMEOUT_MS_def)
  have n: "list_all (\<lambda>r. ws_content r = None) [page_a, page_b]" "ws_content page_a = None"
    by (simp_all add: page_a_def page_b_def)
  have w: "(\<lambda>r. r\<lparr>ws_content := Some (take 15000 (jina_content search_world (ws_url r)))\<rparr>) =
      with_content (jina_content search_world)"
    by (simp add: with_content_def [abs_def])
  have a: "fetchContentsForResults slow_world [page_a, page_b, page_c] 2 = [page_a, page_b]"
    using fetch_timeout_returns_snippets [where env = slow_world
        and results = "[page_a, page_b, page_c]" and limit = 2] d
    by (simp add: numeral_2_eq_2)
  have b: "fetchContentsForResults search_world [page_a, page_b, page_c] 20 = [fetched_a, fetched_c]"
    using fetch_timeout_returns_snippets [where env = search_world
        and results = "[page_a, page_b, page_c]" and limit = 20] d
    unfolding w by (simp add: fetched_pages)
  have c: "validResults slow_world [''alpha''] = [(''alpha'', [page_a, page_b])]
      \<and> aggregatedContext (validResults slow_world [''alpha'']) =
            query_context (''alpha'', [page_a, page_b])"
    using fetch_timeout_returns_snippets [where env = slow_world and q = "''alpha''"
        and results = "[page_a, page_b]"] slow_world_facts d n
    by (simp add: aggregatedContext_def)
  have r: "render_page (0, page_a) = ''[1] Alpha (https://a.example):'' @ [CHR 0x0A] @ ''undefined''"
    using fetch_timeout_returns_snippets [where p = page_a and i = 0 and env = slow_world
        and results = "[]" and limit = 0 and q = "[]" and r = page_a] n
    by (simp add: page_a_def show_nat.simps digit_char_def)
  have f: "ws_content fetched_c = Some (replicate 15000 (CHR ''y''))"
    by (simp add: fetched_c_def)
  from c have c1: "validResults slow_world [''alpha''] = [(''alpha'', [page_a, page_b])]"
    and c2: "aggregatedContext (validResults slow_world [''alpha'']) =
            query_context (''alpha'', [page_a, page_b])"
    by blast+
  from a b c1 r f show ?thesis
    unfolding c2 undefined_context by simp
qed

section \<open>Properties of the tag routing\<close>



















end
